theory Spec2Isabelle
  imports Complex_Main
begin

section \<open>Indices, failures and fixed-length arrays\<close>

text \<open>
  The operators of \<^verbatim>\<open>include/matx/operators\<close> compute with \<^verbatim>\<open>index_t\<close>, a signed
  64-bit integer. Extents and coordinates are far below the range where it overflows, so
  it is modelled by \<open>int\<close>.
\<close>

type_synonym index_t = int

text \<open>
  Every way in which a construction or a call of the source does not yield a value is a
  constructor of \<open>error\<close>:
  \<^item> \<open>OutOfBounds\<close>: a \<^verbatim>\<open>std::array\<close> indexed outside its length (undefined behaviour);
  \<^item> \<open>Indeterminate\<close>: an element of a \<^verbatim>\<open>std::array\<close> read before it was written;
  \<^item> \<open>UndefinedCast\<close>: a \<^verbatim>\<open>double\<close> that is infinite or not a number cast to \<^verbatim>\<open>index_t\<close>;
  \<^item> \<open>StaticAssert\<close>: a \<^verbatim>\<open>static_assert\<close> that fails, or a call that is ill-typed;
  \<^item> \<open>DeletedFunction\<close>: a call of a member declared \<^verbatim>\<open>= delete\<close>;
  \<^item> \<open>matxInvalidDim\<close>, \<open>matxNotSupported\<close>: the error codes thrown by
    \<^verbatim>\<open>MATX_ASSERT_STR\<close>, with the diagnostic text.
\<close>

datatype error =
    OutOfBounds
  | Indeterminate
  | UndefinedCast
  | StaticAssert string
  | DeletedFunction
  | matxInvalidDim string
  | matxNotSupported string

definition bindE :: "error + 'a \<Rightarrow> ('a \<Rightarrow> error + 'b) \<Rightarrow> error + 'b" where
  "bindE m f = (case m of Inl e \<Rightarrow> Inl e | Inr x \<Rightarrow> f x)"

text \<open>
  Modelled from the spec: the macro \<^verbatim>\<open>MATX_ASSERT_STR(cond, code, text)\<close> is declared
  outside the operator headers. The spec calls its failure a construction-time failure
  with a diagnostic that identifies the violated invariant: when the condition is false
  the error code is raised with the text, otherwise execution continues.
\<close>

definition MATX_ASSERT_STR :: "bool \<Rightarrow> (string \<Rightarrow> error) \<Rightarrow> string \<Rightarrow> error + unit" where
  "MATX_ASSERT_STR cond code str = (if cond then Inr () else Inl (code str))"

text \<open>
  A \<^verbatim>\<open>std::array<T, N>\<close> member is a list of length \<open>N\<close> whose elements are \<open>None\<close>
  until they are written. \<^verbatim>\<open>operator[]\<close> does not check its index: an index outside
  \<open>0..<N\<close> is undefined behaviour, which these arrays detect and report. What an
  ordinary build does past such an access is followed with the cells of the section on
  unchecked array access.
\<close>

type_synonym 'a array = "'a option list"

definition array_uninit :: "nat \<Rightarrow> 'a array" where
  "array_uninit n = replicate n None"

definition array_set :: "'a array \<Rightarrow> int \<Rightarrow> 'a \<Rightarrow> error + 'a array" where
  "array_set xs i v =
     (if 0 \<le> i \<and> i < int (length xs) then Inr (xs[nat i := Some v]) else Inl OutOfBounds)"

definition array_get :: "'a array \<Rightarrow> int \<Rightarrow> error + 'a" where
  "array_get xs i =
     (if 0 \<le> i \<and> i < int (length xs)
      then (case xs ! nat i of None \<Rightarrow> Inl Indeterminate | Some v \<Rightarrow> Inr v)
      else Inl OutOfBounds)"

text \<open>Reading a whole array, as when it is passed on element by element.\<close>

primrec array_values :: "'a array \<Rightarrow> error + 'a list" where
  "array_values [] = Inr []"
| "array_values (x # xs) =
     (case x of None \<Rightarrow> Inl Indeterminate
      | Some v \<Rightarrow> bindE (array_values xs) (\<lambda>vs. Inr (v # vs)))"

section \<open>The operator capability contract\<close>

text \<open>
  Every node offers \<^verbatim>\<open>Rank()\<close>, \<^verbatim>\<open>Size(dim)\<close> and \<^verbatim>\<open>operator()(indices...)\<close>. A wrapped
  operand of template type \<^verbatim>\<open>T\<close> is the record of these three members.
\<close>

record 'a operator_t =
  op_Rank :: nat
  op_Size :: "int \<Rightarrow> error + index_t"
  op_call :: "index_t list \<Rightarrow> error + 'a"

text \<open>
  Modelled from the spec: the tensor class is declared outside the operator headers. By
  the spec's capability contract \<^verbatim>\<open>Size(dim)\<close> is the extent for \<open>0 \<le> dim < Rank()\<close> and
  undefined out of range, and a call takes exactly \<^verbatim>\<open>Rank()\<close> indices. \<open>tensor_t shape f\<close> is
  the tensor with the extents \<open>shape\<close> and the contents \<open>f\<close>.
\<close>

definition tensor_t :: "index_t list \<Rightarrow> (index_t list \<Rightarrow> 'a) \<Rightarrow> 'a operator_t" where
  "tensor_t shape f =
     \<lparr> op_Rank = length shape,
       op_Size = (\<lambda>d. if 0 \<le> d \<and> d < int (length shape) then Inr (shape ! nat d)
                       else Inl OutOfBounds),
       op_call = (\<lambda>idx. if length idx = length shape then Inr (f idx)
                         else Inl (StaticAssert ''sizeof...(Is)==Rank()'')) \<rparr>"

section \<open>SliceOp (slice.h)\<close>

text \<open>
  Modelled from the spec: the sentinels \<^verbatim>\<open>matxEnd\<close> and \<^verbatim>\<open>matxDropDim\<close> are declared
  outside the operator headers. The spec describes them as special reserved values,
  distinguishable from any valid coordinate: the two largest values below the maximum of
  \<^verbatim>\<open>index_t\<close> are taken.
\<close>

definition matxDropDim :: index_t where
  "matxDropDim = 9223372036854775806"

definition matxEnd :: index_t where
  "matxEnd = 9223372036854775805"

text \<open>
  \<^verbatim>\<open>(shape_type)std::ceil(static_cast<double>(n) / static_cast<double>(s))\<close>. The
  quotient of the two doubles is taken exactly (it is exact for the magnitudes of tensor
  extents); a zero divisor gives an infinity or a NaN, whose cast is undefined.
\<close>

definition ceil_div_double :: "index_t \<Rightarrow> index_t \<Rightarrow> error + index_t" where
  "ceil_div_double n s =
     (if s = 0 then Inl UndefinedCast else Inr \<lceil>real_of_int n / real_of_int s\<rceil>)"

text \<open>
  The class \<^verbatim>\<open>SliceOp<DIM, T>\<close>. Its members \<^verbatim>\<open>op_\<close>, \<^verbatim>\<open>sizes_\<close>, \<^verbatim>\<open>dims_\<close>, \<^verbatim>\<open>starts_\<close> and
  \<^verbatim>\<open>strides_\<close> are the fields \<open>slice_op\<close>, \<open>slice_sizes\<close>, \<open>slice_dims\<close>, \<open>slice_starts\<close> and
  \<open>slice_strides\<close>; the first two arrays have \<open>DIM\<close> elements, the last two have the
  operand's rank.
\<close>

record 'a SliceOp =
  DIM :: nat
  slice_op :: "'a operator_t"
  slice_sizes :: "index_t array"
  slice_dims :: "int array"
  slice_starts :: "index_t array"
  slice_strides :: "index_t array"

text \<open>
  One iteration of the constructor's loop, for the original dimension \<open>i\<close>; \<open>d\<close> counts the
  dimensions retained so far. The stride that divides the size is \<^verbatim>\<open>strides_[d]\<close>, as in
  the source.
\<close>

definition SliceOp_step ::
  "index_t list \<Rightarrow> index_t list \<Rightarrow> index_t list \<Rightarrow> nat \<Rightarrow> 'a SliceOp \<times> int
     \<Rightarrow> error + ('a SliceOp \<times> int)" where
  "SliceOp_step starts ends strides i sd =
     (let s = fst sd; d = snd sd; start = starts ! i; end = ends ! i in
      bindE (array_set (slice_starts s) (int i) start) (\<lambda>sts.
      bindE (array_set (slice_strides s) (int i) (strides ! i)) (\<lambda>strs.
      let s1 = s\<lparr>slice_starts := sts, slice_strides := strs\<rparr> in
      if end \<noteq> matxDropDim then
        bindE (array_set (slice_dims s1) d (int i)) (\<lambda>dms.
        bindE (if end = matxEnd
               then bindE (op_Size (slice_op s1) (int i)) (\<lambda>n. array_set (slice_sizes s1) d (n - start))
               else array_set (slice_sizes s1) d (end - start)) (\<lambda>szs.
        bindE (array_get szs d) (\<lambda>n.
        bindE (array_get (slice_strides s1) d) (\<lambda>st.
        bindE (ceil_div_double n st) (\<lambda>c.
        bindE (array_set szs d c) (\<lambda>szs'.
        Inr (s1\<lparr>slice_dims := dms, slice_sizes := szs'\<rparr>, d + 1)))))))
      else Inr (s1, d))))"

primrec SliceOp_loop ::
  "index_t list \<Rightarrow> index_t list \<Rightarrow> index_t list \<Rightarrow> nat list \<Rightarrow> 'a SliceOp \<times> int
     \<Rightarrow> error + ('a SliceOp \<times> int)" where
  "SliceOp_loop starts ends strides [] sd = Inr sd"
| "SliceOp_loop starts ends strides (i # is) sd =
     bindE (SliceOp_step starts ends strides i sd) (SliceOp_loop starts ends strides is)"

text \<open>
  The constructor \<^verbatim>\<open>SliceOp<DIM, T>(op, starts, ends, strides)\<close>. The two
  \<^verbatim>\<open>static_assert\<close>s of the class come first; the three parameter arrays have the
  operand's rank by their type.
\<close>

definition SliceOp ::
  "nat \<Rightarrow> 'a operator_t \<Rightarrow> index_t list \<Rightarrow> index_t list \<Rightarrow> index_t list \<Rightarrow> error + 'a SliceOp" where
  "SliceOp N op starts ends strides =
     (if \<not> 0 < op_Rank op
      then Inl (StaticAssert ''SliceOp: Rank of operator must be greater than 0.'')
      else if \<not> N \<le> op_Rank op
      then Inl (StaticAssert ''SliceOp: DIM must be less than or equal to operator rank.'')
      else if length starts \<noteq> op_Rank op \<or> length ends \<noteq> op_Rank op
              \<or> length strides \<noteq> op_Rank op
      then Inl (StaticAssert ''std::array<shape_type, T::Rank()>'')
      else
        bindE (SliceOp_loop starts ends strides [0..<op_Rank op]
                 (\<lparr> DIM = N, slice_op = op, slice_sizes = array_uninit N, slice_dims = array_uninit N,
                     slice_starts = array_uninit (op_Rank op),
                     slice_strides = array_uninit (op_Rank op) \<rparr>, 0)) (\<lambda>sd.
        bindE (MATX_ASSERT_STR (snd sd = int N) matxInvalidDim
                 ''SliceOp: Number of dimensions without matxDropDim must equal new rank.'')
          (\<lambda>_. Inr (fst sd))))"

definition SliceOp_Rank :: "'a SliceOp \<Rightarrow> nat" where
  "SliceOp_Rank s = DIM s"

definition SliceOp_Size :: "'a SliceOp \<Rightarrow> int \<Rightarrow> error + index_t" where
  "SliceOp_Size s d = array_get (slice_sizes s) d"

text \<open>
  \<^verbatim>\<open>operator()\<close>: the first loop writes every start offset into \<open>ind\<close>, the second adds
  \<^verbatim>\<open>inds[i] * strides_[i]\<close> at position \<^verbatim>\<open>dims_[i]\<close>, and \<^verbatim>\<open>mapply\<close> calls the operand
  with the elements of \<open>ind\<close>.
\<close>

primrec SliceOp_call_starts :: "'a SliceOp \<Rightarrow> nat list \<Rightarrow> index_t array \<Rightarrow> error + index_t array" where
  "SliceOp_call_starts s [] ind = Inr ind"
| "SliceOp_call_starts s (i # is) ind =
     bindE (array_get (slice_starts s) (int i)) (\<lambda>st.
     bindE (array_set ind (int i) st) (SliceOp_call_starts s is))"

primrec SliceOp_call_strides ::
  "'a SliceOp \<Rightarrow> index_t list \<Rightarrow> nat list \<Rightarrow> index_t array \<Rightarrow> error + index_t array" where
  "SliceOp_call_strides s inds [] ind = Inr ind"
| "SliceOp_call_strides s inds (i # is) ind =
     bindE (array_get (slice_dims s) (int i)) (\<lambda>j.
     bindE (array_get ind j) (\<lambda>v.
     bindE (array_get (slice_strides s) (int i)) (\<lambda>st.
     bindE (array_set ind j (v + inds ! i * st)) (SliceOp_call_strides s inds is))))"

definition SliceOp_call :: "'a SliceOp \<Rightarrow> index_t list \<Rightarrow> error + 'a" where
  "SliceOp_call s indices =
     (if length indices \<noteq> DIM s then Inl (StaticAssert ''sizeof...(Is)==Rank()'')
      else
        bindE (SliceOp_call_starts s [0..<op_Rank (slice_op s)]
                 (map Some (indices @ replicate (op_Rank (slice_op s) - DIM s) 0))) (\<lambda>ind.
        bindE (SliceOp_call_strides s indices [0..<DIM s] ind) (\<lambda>ind'.
        bindE (array_values ind') (op_call (slice_op s)))))"

text \<open>A slice is itself an operator, so that a slice can wrap a slice.\<close>

definition SliceOp_operator :: "'a SliceOp \<Rightarrow> 'a operator_t" where
  "SliceOp_operator s =
     \<lparr> op_Rank = SliceOp_Rank s, op_Size = SliceOp_Size s, op_call = SliceOp_call s \<rparr>"

text \<open>
  The free function \<^verbatim>\<open>slice<N>(op, starts, ends, strides)\<close> for an operand that is not a
  tensor view, and its overload without strides, which fills them with 1.
\<close>

definition slice ::
  "nat \<Rightarrow> 'a operator_t \<Rightarrow> index_t list \<Rightarrow> index_t list \<Rightarrow> index_t list \<Rightarrow> error + 'a SliceOp" where
  "slice N op starts ends strides = SliceOp N op starts ends strides"

definition slice_unit_strides ::
  "nat \<Rightarrow> 'a operator_t \<Rightarrow> index_t list \<Rightarrow> index_t list \<Rightarrow> error + 'a SliceOp" where
  "slice_unit_strides N op starts ends =
     slice N op starts ends (replicate (op_Rank op) 1)"

section \<open>Execution contexts, temporaries and kernel launches\<close>

text \<open>
  Modelled from the spec: the executor types, \<^verbatim>\<open>make_tensor\<close> and the numeric kernels
  (\<^verbatim>\<open>matmul_impl\<close>, \<^verbatim>\<open>cov_impl\<close>, \<^verbatim>\<open>cumsum_impl\<close>, \<^verbatim>\<open>trace_impl\<close>, \<^verbatim>\<open>qr_impl\<close>,
  \<^verbatim>\<open>cusolver_qr_impl\<close>) are declared outside the operator headers. The spec gives an
  execution context a discriminant that tells the asynchronous/device kind from the
  others and an allocation facility for temporary buffers sized by an extent vector and a
  memory-kind token; a kernel is one call that receives destination views, operand views
  and the context. Only the device kind has a stream.
\<close>

datatype executor = DeviceExecutor nat | HostExecutor

definition is_device_executor_v :: "executor \<Rightarrow> bool" where
  "is_device_executor_v ex = (case ex of DeviceExecutor _ \<Rightarrow> True | HostExecutor \<Rightarrow> False)"

definition getStream :: "executor \<Rightarrow> error + nat" where
  "getStream ex =
     (case ex of DeviceExecutor st \<Rightarrow> Inr st
      | HostExecutor \<Rightarrow> Inl (StaticAssert ''getStream''))"

datatype matxMemorySpace_t = MATX_ASYNC_DEVICE_MEMORY | MATX_HOST_MEMORY

text \<open>
  Modelled from the spec: \<^verbatim>\<open>make_tensor(tmp, shape, space, stream)\<close> is the allocation
  facility, declared outside the operator headers. A buffer is described by the extents
  it was sized to, its memory kind and the stream it was allocated on; a member
  \<^verbatim>\<open>tmp_out_\<close> that was never allocated is \<open>None\<close>.
\<close>

record tensor_storage =
  tmp_shape :: "index_t list"
  tmp_space :: matxMemorySpace_t
  tmp_stream :: "nat option"

definition make_tensor ::
  "index_t array \<Rightarrow> matxMemorySpace_t \<Rightarrow> nat option \<Rightarrow> error + tensor_storage" where
  "make_tensor shape space stream =
     bindE (array_values shape) (\<lambda>sh.
     Inr \<lparr> tmp_shape = sh, tmp_space = space, tmp_stream = stream \<rparr>)"

text \<open>
  A kernel call: the kernel's name, the destinations it is given (as they are, or seen
  through \<^verbatim>\<open>permute\<close>) and the execution context of the call.
\<close>

datatype 'd dest = Dest 'd | Permuted 'd "int list"

datatype 'd launch = Launch string "'d dest list" executor

text \<open>
  The operand of a transform node. When \<^verbatim>\<open>is_matx_op<OpA>()\<close> holds the operand has a
  \<^verbatim>\<open>PreRun\<close> of its own (\<open>op_PreRun\<close> is \<open>Some\<close>), which the node calls first; what it does
  to the operand is the operand's own matter, the node sees whether it failed. A plain
  tensor needs no preparation.
\<close>

record 'a operand = "'a operator_t" +
  op_PreRun :: "(index_t list \<Rightarrow> executor \<Rightarrow> error + unit) option"

definition operand_PreRun :: "'a operand \<Rightarrow> index_t list \<Rightarrow> executor \<Rightarrow> error + unit" where
  "operand_PreRun a shape ex = (case op_PreRun a of None \<Rightarrow> Inr () | Some f \<Rightarrow> f shape ex)"

definition tensor_operand :: "index_t list \<Rightarrow> (index_t list \<Rightarrow> 'a) \<Rightarrow> 'a operand" where
  "tensor_operand shape f = operator_t.extend (tensor_t shape f) \<lparr> op_PreRun = None \<rparr>"

text \<open>
  The loop \<^verbatim>\<open>for (r ...) out_dims_[r] = a_.Size(r)\<close> shared by the constructors of
  \<^verbatim>\<open>CovOp\<close>, \<^verbatim>\<open>CumSumOp\<close> and (for the batch dimensions) \<^verbatim>\<open>MatMulOp\<close>.
\<close>

primrec Size_loop :: "'a operand \<Rightarrow> nat list \<Rightarrow> index_t array \<Rightarrow> error + index_t array" where
  "Size_loop a [] out = Inr out"
| "Size_loop a (r # rs) out =
     bindE (op_Size a (int r)) (\<lambda>v.
     bindE (array_set out (int r) v) (Size_loop a rs))"

section \<open>MatMulOp (matmul.h)\<close>

text \<open>
  The members \<^verbatim>\<open>a_\<close>, \<^verbatim>\<open>b_\<close>, \<^verbatim>\<open>alpha_\<close>, \<^verbatim>\<open>beta_\<close>, \<^verbatim>\<open>perm_\<close>, \<^verbatim>\<open>out_dims_\<close> (of the rank
  of \<^verbatim>\<open>OpA\<close>) and \<^verbatim>\<open>tmp_out_\<close>; the nodes below name their members in the same way.
\<close>

record 'a MatMulOp =
  matmul_a :: "'a operand"
  matmul_b :: "'a operand"
  matmul_alpha :: real
  matmul_beta :: real
  matmul_perm :: "int list option"
  matmul_out_dims :: "index_t array"
  matmul_tmp_out :: "tensor_storage option"

definition MatMulOp_Rank :: "'a MatMulOp \<Rightarrow> nat" where
  "MatMulOp_Rank n = op_Rank (matmul_a n)"

text \<open>The loop of the branch taken when \<^verbatim>\<open>PermDims\<close> is not \<^verbatim>\<open>no_permute_t\<close>.\<close>

primrec MatMulOp_perm_loop ::
  "'a operand \<Rightarrow> 'a operand \<Rightarrow> int list \<Rightarrow> nat list \<Rightarrow> index_t array \<Rightarrow> error + index_t array" where
  "MatMulOp_perm_loop a b perm [] out = Inr out"
| "MatMulOp_perm_loop a b perm (r # rs) out =
     bindE (if perm ! r = int (op_Rank a) - 2 then op_Size a (perm ! r)
            else if perm ! r = int (op_Rank a) - 1 then op_Size b (perm ! r)
            else op_Size a (int r)) (\<lambda>v.
     bindE (array_set out (int r) v) (MatMulOp_perm_loop a b perm rs))"

text \<open>
  The constructor. \<open>perm = None\<close> stands for \<^verbatim>\<open>no_permute_t\<close>; a permutation is a
  \<^verbatim>\<open>std::array<int, Rank>\<close>. The second component of the result is what the constructor
  writes to standard output: one triple for each \<^verbatim>\<open>printf("%lld %lld %lld\n", ...)\<close>.
  The batch loop runs over \<open>r < Rank() - 2\<close>, which is empty below rank 2.
\<close>

definition MatMulOp ::
  "'a operand \<Rightarrow> 'a operand \<Rightarrow> real \<Rightarrow> real \<Rightarrow> int list option
     \<Rightarrow> error + ('a MatMulOp \<times> (index_t \<times> index_t \<times> index_t) list)" where
  "MatMulOp a b alpha beta perm =
     (let R = op_Rank a;
          node = \<lparr> matmul_a = a, matmul_b = b, matmul_alpha = alpha, matmul_beta = beta,
                   matmul_perm = perm, matmul_out_dims = array_uninit R,
                   matmul_tmp_out = None \<rparr>
      in case perm of
           Some p \<Rightarrow>
             if length p \<noteq> R then Inl (StaticAssert ''std::array<int, Rank>'')
             else
               bindE (MatMulOp_perm_loop a b p [0..<R] (array_uninit R)) (\<lambda>out.
               bindE (array_get out 0) (\<lambda>d0.
               bindE (array_get out 1) (\<lambda>d1.
               bindE (array_get out 2) (\<lambda>d2.
               Inr (node\<lparr>matmul_out_dims := out\<rparr>, [(d0, d1, d2)])))))
         | None \<Rightarrow>
             bindE (Size_loop a [0..<R - 2] (array_uninit R)) (\<lambda>out.
             bindE (op_Size a (int R - 2)) (\<lambda>m.
             bindE (array_set out (int R - 2) m) (\<lambda>out1.
             bindE (op_Size b (int (op_Rank b) - 1)) (\<lambda>n.
             bindE (array_set out1 (int (op_Rank b) - 1) n) (\<lambda>out2.
             Inr (node\<lparr>matmul_out_dims := out2\<rparr>, [])))))))"

definition MatMulOp_Size :: "'a MatMulOp \<Rightarrow> int \<Rightarrow> error + index_t" where
  "MatMulOp_Size n d = array_get (matmul_out_dims n) d"

definition MatMulOp_Exec :: "'a MatMulOp \<Rightarrow> 'd list \<Rightarrow> executor \<Rightarrow> error + 'd launch" where
  "MatMulOp_Exec n out ex =
     (if \<not> is_device_executor_v ex
      then Inl (StaticAssert ''matmul() only supports the CUDA executor currently'')
      else case out of
             [] \<Rightarrow> Inl (StaticAssert ''std::get<0>(out)'')
           | o0 # _ \<Rightarrow>
               (case matmul_perm n of
                  Some p \<Rightarrow> Inr (Launch ''matmul_impl'' [Permuted o0 p] ex)
                | None \<Rightarrow> Inr (Launch ''matmul_impl'' [Dest o0] ex)))"

definition MatMulOp_PreRun ::
  "'a MatMulOp \<Rightarrow> index_t list \<Rightarrow> executor
     \<Rightarrow> error + ('a MatMulOp \<times> tensor_storage option launch)" where
  "MatMulOp_PreRun n shape ex =
     bindE (operand_PreRun (matmul_a n) shape ex) (\<lambda>_.
     bindE (operand_PreRun (matmul_b n) shape ex) (\<lambda>_.
     bindE (if is_device_executor_v ex
            then bindE (getStream ex) (\<lambda>st.
                 bindE (make_tensor (matmul_out_dims n) MATX_ASYNC_DEVICE_MEMORY (Some st)) (\<lambda>t.
                 Inr (n\<lparr>matmul_tmp_out := Some t\<rparr>)))
            else Inr n) (\<lambda>n'.
     bindE (MatMulOp_Exec n' [matmul_tmp_out n'] ex) (\<lambda>l. Inr (n', l)))))"

text \<open>
  Modelled from the spec: \<^verbatim>\<open>permute\<close> and \<^verbatim>\<open>detail::getPermuteDims\<close> are declared outside
  the operator headers. The spec has the dimensions logically permuted so that the chosen
  axis pair moves to the trailing position: the permutation lists the other dimensions in
  their order and then the axis pair, and dimension \<open>i\<close> of the permuted operand is
  dimension \<open>perm[i]\<close> of the operand.
\<close>

definition getPermuteDims :: "nat \<Rightarrow> int list \<Rightarrow> int list" where
  "getPermuteDims R axis = filter (\<lambda>i. i \<notin> set axis) (map int [0..<R]) @ axis"

definition unpermute :: "int list \<Rightarrow> 'b list \<Rightarrow> 'b list" where
  "unpermute perm xs = map snd (sort_key fst (zip perm xs))"

definition permute :: "'a operand \<Rightarrow> int list \<Rightarrow> 'a operand" where
  "permute a perm =
     \<lparr> op_Rank = op_Rank a,
       op_Size = (\<lambda>d. if 0 \<le> d \<and> d < int (length perm) then op_Size a (perm ! nat d)
                       else Inl OutOfBounds),
       op_call = (\<lambda>idx. op_call a (unpermute perm idx)),
       op_PreRun = op_PreRun a \<rparr>"

text \<open>The two \<^verbatim>\<open>matmul\<close> functions: without and with the \<^verbatim>\<open>axis\<close> pair.\<close>

definition matmul ::
  "'a operand \<Rightarrow> 'a operand \<Rightarrow> real \<Rightarrow> real
     \<Rightarrow> error + ('a MatMulOp \<times> (index_t \<times> index_t \<times> index_t) list)" where
  "matmul A B alpha beta = MatMulOp A B alpha beta None"

definition matmul_axis ::
  "'a operand \<Rightarrow> 'a operand \<Rightarrow> int list \<Rightarrow> real \<Rightarrow> real
     \<Rightarrow> error + ('a MatMulOp \<times> (index_t \<times> index_t \<times> index_t) list)" where
  "matmul_axis A B axis alpha beta =
     (if length axis \<noteq> 2 then Inl (StaticAssert ''const int32_t (&axis)[2]'')
      else if op_Rank A \<noteq> op_Rank B
      then Inl (StaticAssert
             ''matmul: inputs must have same rank to use matmul with axis parameter'')
      else let perm = getPermuteDims (op_Rank A) axis in
           MatMulOp (permute A perm) (permute B perm) alpha beta (Some perm))"

text \<open>
  The output-shape rule in the spec's words, for comparison with the constructor. Without
  a permutation: the batch dimensions and the second-to-last dimension from \<open>A\<close>, the last
  dimension from \<open>B\<close>. With an axis pair: permute the dimensions so that the pair is
  trailing, apply the same rule, and permute the result back.
\<close>

definition spec_matmul_extents :: "index_t list \<Rightarrow> index_t list \<Rightarrow> index_t list" where
  "spec_matmul_extents A B = butlast A @ [last B]"

definition spec_matmul_axis_extents ::
  "index_t list \<Rightarrow> index_t list \<Rightarrow> int list \<Rightarrow> index_t list" where
  "spec_matmul_axis_extents A B axis =
     (let perm = getPermuteDims (length A) axis in
      unpermute perm
        (spec_matmul_extents (map (\<lambda>i. A ! nat i) perm) (map (\<lambda>i. B ! nat i) perm)))"

section \<open>CovOp (cov.h)\<close>

text \<open>The extents are kept in a \<^verbatim>\<open>std::array<index_t, 2>\<close>, whatever the operand's rank.\<close>

record 'a CovOp =
  cov_a :: "'a operand"
  cov_out_dims :: "index_t array"
  cov_tmp_out :: "tensor_storage option"

definition CovOp :: "'a operand \<Rightarrow> error + 'a CovOp" where
  "CovOp A =
     bindE (Size_loop A [0..<op_Rank A] (array_uninit 2)) (\<lambda>out.
     Inr \<lparr> cov_a = A, cov_out_dims = out, cov_tmp_out = None \<rparr>)"

definition CovOp_Rank :: "'a CovOp \<Rightarrow> nat" where
  "CovOp_Rank n = op_Rank (cov_a n)"

definition CovOp_Size :: "'a CovOp \<Rightarrow> int \<Rightarrow> error + index_t" where
  "CovOp_Size n d = array_get (cov_out_dims n) d"

definition CovOp_Exec :: "'a CovOp \<Rightarrow> 'd list \<Rightarrow> executor \<Rightarrow> error + 'd launch" where
  "CovOp_Exec n out ex =
     (if \<not> is_device_executor_v ex
      then Inl (StaticAssert ''cov() only supports the CUDA executor currently'')
      else case out of
             [] \<Rightarrow> Inl (StaticAssert ''std::get<0>(out)'')
           | o0 # _ \<Rightarrow> Inr (Launch ''cov_impl'' [Dest o0] ex))"

definition CovOp_PreRun ::
  "'a CovOp \<Rightarrow> index_t list \<Rightarrow> executor \<Rightarrow> error + ('a CovOp \<times> tensor_storage option launch)" where
  "CovOp_PreRun n shape ex =
     bindE (operand_PreRun (cov_a n) shape ex) (\<lambda>_.
     bindE (if is_device_executor_v ex
            then bindE (getStream ex) (\<lambda>st.
                 bindE (make_tensor (cov_out_dims n) MATX_ASYNC_DEVICE_MEMORY (Some st)) (\<lambda>t.
                 Inr (n\<lparr>cov_tmp_out := Some t\<rparr>)))
            else Inr n) (\<lambda>n'.
     bindE (CovOp_Exec n' [cov_tmp_out n'] ex) (\<lambda>l. Inr (n', l))))"

definition cov :: "'a operand \<Rightarrow> error + 'a CovOp" where
  "cov a = CovOp a"

section \<open>CumSumOp (cumsum.h)\<close>

record 'a CumSumOp =
  cumsum_a :: "'a operand"
  cumsum_out_dims :: "index_t array"
  cumsum_tmp_out :: "tensor_storage option"

definition CumSumOp :: "'a operand \<Rightarrow> error + 'a CumSumOp" where
  "CumSumOp a =
     bindE (Size_loop a [0..<op_Rank a] (array_uninit (op_Rank a))) (\<lambda>out.
     Inr \<lparr> cumsum_a = a, cumsum_out_dims = out, cumsum_tmp_out = None \<rparr>)"


definition CumSumOp_Size :: "'a CumSumOp \<Rightarrow> int \<Rightarrow> error + index_t" where
  "CumSumOp_Size n d = array_get (cumsum_out_dims n) d"

definition CumSumOp_Exec :: "'a CumSumOp \<Rightarrow> 'd list \<Rightarrow> executor \<Rightarrow> error + 'd launch" where
  "CumSumOp_Exec n out ex =
     (case out of
        [] \<Rightarrow> Inl (StaticAssert ''std::get<0>(out)'')
      | o0 # _ \<Rightarrow> Inr (Launch ''cumsum_impl'' [Dest o0] ex))"

definition CumSumOp_PreRun ::
  "'a CumSumOp \<Rightarrow> index_t list \<Rightarrow> executor
     \<Rightarrow> error + ('a CumSumOp \<times> tensor_storage option launch)" where
  "CumSumOp_PreRun n shape ex =
     bindE (operand_PreRun (cumsum_a n) shape ex) (\<lambda>_.
     bindE (if is_device_executor_v ex
            then bindE (getStream ex) (\<lambda>st.
                 bindE (make_tensor (cumsum_out_dims n) MATX_ASYNC_DEVICE_MEMORY (Some st)) (\<lambda>t.
                 Inr (n\<lparr>cumsum_tmp_out := Some t\<rparr>)))
            else Inr n) (\<lambda>n'.
     bindE (CumSumOp_Exec n' [cumsum_tmp_out n'] ex) (\<lambda>l. Inr (n', l))))"

definition cumsum :: "'a operand \<Rightarrow> error + 'a CumSumOp" where
  "cumsum a = CumSumOp a"

section \<open>TraceOp (trace.h)\<close>

record 'a TraceOp =
  trace_a :: "'a operand"
  trace_tmp_out :: "tensor_storage option"

definition TraceOp :: "'a operand \<Rightarrow> 'a TraceOp" where
  "TraceOp a = \<lparr> trace_a = a, trace_tmp_out = None \<rparr>"

definition TraceOp_Rank :: "'a TraceOp \<Rightarrow> nat" where
  "TraceOp_Rank n = 0"

definition TraceOp_Size :: "'a TraceOp \<Rightarrow> int \<Rightarrow> error + index_t" where
  "TraceOp_Size n d = Inr 1"

definition TraceOp_Exec :: "'a TraceOp \<Rightarrow> 'd list \<Rightarrow> executor \<Rightarrow> error + 'd launch" where
  "TraceOp_Exec n out ex =
     (case out of
        [] \<Rightarrow> Inl (StaticAssert ''std::get<0>(out)'')
      | o0 # _ \<Rightarrow> Inr (Launch ''trace_impl'' [Dest o0] ex))"

text \<open>Here the temporary is made under either kind of context, in the memory that fits it.\<close>

definition TraceOp_PreRun ::
  "'a TraceOp \<Rightarrow> index_t list \<Rightarrow> executor
     \<Rightarrow> error + ('a TraceOp \<times> tensor_storage option launch)" where
  "TraceOp_PreRun n shape ex =
     bindE (operand_PreRun (trace_a n) shape ex) (\<lambda>_.
     bindE (if is_device_executor_v ex
            then bindE (getStream ex) (\<lambda>st.
                 bindE (make_tensor [] MATX_ASYNC_DEVICE_MEMORY (Some st)) (\<lambda>t.
                 Inr (n\<lparr>trace_tmp_out := Some t\<rparr>)))
            else bindE (make_tensor [] MATX_HOST_MEMORY None) (\<lambda>t.
                 Inr (n\<lparr>trace_tmp_out := Some t\<rparr>))) (\<lambda>n'.
     bindE (TraceOp_Exec n' [trace_tmp_out n'] ex) (\<lambda>l. Inr (n', l))))"

definition trace :: "'a operand \<Rightarrow> 'a TraceOp" where
  "trace a = TraceOp a"

section \<open>QROp and CuSolverQROp (qr.h)\<close>

record 'a QROp =
  qr_a :: "'a operand"

definition QROp :: "'a operand \<Rightarrow> 'a QROp" where
  "QROp a = \<lparr> qr_a = a \<rparr>"

text \<open>\<^verbatim>\<open>operator()\<close> is declared \<^verbatim>\<open>= delete\<close>: no call of it compiles.\<close>

definition QROp_call :: "'a QROp \<Rightarrow> index_t list \<Rightarrow> error + 'a" where
  "QROp_call n indices = Inl DeletedFunction"

definition QROp_Exec :: "'a QROp \<Rightarrow> 'd list \<Rightarrow> executor \<Rightarrow> error + 'd launch" where
  "QROp_Exec n out ex =
     (if \<not> is_device_executor_v ex
      then Inl (StaticAssert ''svd() only supports the CUDA executor currently'')
      else if \<not> length out = 3
      then Inl (StaticAssert ''Must use mtie with 3 outputs on qr(). ie: (mtie(Q, R) = qr(A))'')
      else Inr (Launch ''qr_impl'' [Dest (out ! 0), Dest (out ! 1)] ex))"

definition QROp_Rank :: "'a QROp \<Rightarrow> nat" where
  "QROp_Rank n = op_Rank (qr_a n)"

definition QROp_PreRun :: "'a QROp \<Rightarrow> index_t list \<Rightarrow> executor \<Rightarrow> error + unit" where
  "QROp_PreRun n shape ex =
     MATX_ASSERT_STR False matxNotSupported ''qr() must only be called with a single assignment''"

definition QROp_Size :: "'a QROp \<Rightarrow> int \<Rightarrow> error + index_t" where
  "QROp_Size n d = op_Size (qr_a n) d"

definition qr :: "'a operand \<Rightarrow> 'a QROp" where
  "qr A = QROp A"

record 'a CuSolverQROp =
  cusolver_qr_a :: "'a operand"
  cusolver_qr_tmp_out :: "tensor_storage option"

definition CuSolverQROp :: "'a operand \<Rightarrow> 'a CuSolverQROp" where
  "CuSolverQROp a = \<lparr> cusolver_qr_a = a, cusolver_qr_tmp_out = None \<rparr>"

definition CuSolverQROp_call :: "'a CuSolverQROp \<Rightarrow> index_t list \<Rightarrow> error + 'a" where
  "CuSolverQROp_call n indices = Inl DeletedFunction"

definition CuSolverQROp_Exec ::
  "'a CuSolverQROp \<Rightarrow> 'd list \<Rightarrow> executor \<Rightarrow> error + 'd launch" where
  "CuSolverQROp_Exec n out ex =
     (if \<not> is_device_executor_v ex
      then Inl (StaticAssert ''cusolver_qr() only supports the CUDA executor currently'')
      else if \<not> length out = 3
      then Inl (StaticAssert
             ''Must use mtie with 2 outputs on cusolver_qr(). ie: (mtie(A, tau) = eig(A))'')
      else Inr (Launch ''cusolver_qr_impl'' [Dest (out ! 0), Dest (out ! 1)] ex))"

definition CuSolverQROp_Rank :: "'a CuSolverQROp \<Rightarrow> nat" where
  "CuSolverQROp_Rank n = op_Rank (cusolver_qr_a n)"

definition CuSolverQROp_PreRun ::
  "'a CuSolverQROp \<Rightarrow> index_t list \<Rightarrow> executor \<Rightarrow> error + unit" where
  "CuSolverQROp_PreRun n shape ex =
     MATX_ASSERT_STR False matxNotSupported
       ''cusolver_qr() must only be called with a single assignment since it has multiple return types''"

definition CuSolverQROp_Size :: "'a CuSolverQROp \<Rightarrow> int \<Rightarrow> error + index_t" where
  "CuSolverQROp_Size n d = op_Size (cusolver_qr_a n) d"

definition cusolver_qr :: "'a operand \<Rightarrow> 'a CuSolverQROp" where
  "cusolver_qr a = CuSolverQROp a"

section \<open>The spec's rules for slices, in its own words\<close>

text \<open>
  The spec gives every original dimension a start offset, a stride and an end marker. An
  element access starts from the start offsets and adds, for each retained dimension,
  the output index times the stride at that dimension's original position.
\<close>

fun spec_slice_index ::
  "index_t list \<Rightarrow> index_t list \<Rightarrow> index_t list \<Rightarrow> index_t list \<Rightarrow> index_t list" where
  "spec_slice_index (s # ss) (e # es) (st # sts) inds =
     (if e = matxDropDim then s # spec_slice_index ss es sts inds
      else (s + hd inds * st) # spec_slice_index ss es sts (tl inds))"
| "spec_slice_index _ _ _ _ = []"

text \<open>
  The extent of a retained dimension is \<open>ceil((resolved_end - start) / stride)\<close>, where the
  end of a dimension resolves to the operand's extent when it is \<^verbatim>\<open>matxEnd\<close>.
\<close>

fun spec_slice_sizes ::
  "index_t list \<Rightarrow> index_t list \<Rightarrow> index_t list \<Rightarrow> index_t list \<Rightarrow> index_t list" where
  "spec_slice_sizes (n # ns) (s # ss) (e # es) (st # sts) =
     (if e = matxDropDim then spec_slice_sizes ns ss es sts
      else \<lceil>real_of_int ((if e = matxEnd then n else e) - s) / real_of_int st\<rceil>
             # spec_slice_sizes ns ss es sts)"
| "spec_slice_sizes _ _ _ _ = []"

text \<open>
  The composition of two slices: the start is \<open>s1 + s2 * st1\<close> and the stride is
  \<open>st1 * st2\<close>, dimension by dimension.
\<close>

definition compose_starts :: "index_t list \<Rightarrow> index_t list \<Rightarrow> index_t list \<Rightarrow> index_t list" where
  "compose_starts s1 st1 s2 = map (\<lambda>(a, c, b). a + b * c) (zip s1 (zip st1 s2))"

definition compose_strides :: "index_t list \<Rightarrow> index_t list \<Rightarrow> index_t list" where
  "compose_strides st1 st2 = map (\<lambda>(a, b). a * b) (zip st1 st2)"

section \<open>Retained dimensions\<close>

text \<open>
  The original dimensions below \<open>i\<close> whose end is not \<^verbatim>\<open>matxDropDim\<close>, in their order, and
  the end of a dimension with \<^verbatim>\<open>matxEnd\<close> resolved to the operand's extent.
\<close>

definition retained_dims :: "index_t list \<Rightarrow> nat \<Rightarrow> nat list" where
  "retained_dims ends i = filter (\<lambda>j. ends ! j \<noteq> matxDropDim) [0..<i]"

definition resolved_end :: "'a operator_t \<Rightarrow> index_t list \<Rightarrow> nat \<Rightarrow> index_t" where
  "resolved_end op ends j =
     (if ends ! j = matxEnd then projr (op_Size op (int j)) else ends ! j)"

text \<open>
  The state of the constructor's loop in front of dimension \<open>i\<close>: the starts and strides
  of the dimensions below \<open>i\<close> are stored at their original positions, the retained ones
  are recorded in order at the output positions, and the size at output position \<open>k\<close> has
  been divided by the stride stored at position \<open>k\<close>.
\<close>

definition SliceOp_loop_inv ::
  "nat \<Rightarrow> 'a operator_t \<Rightarrow> index_t list \<Rightarrow> index_t list \<Rightarrow> index_t list \<Rightarrow> nat
     \<Rightarrow> 'a SliceOp \<times> int \<Rightarrow> bool" where
  "SliceOp_loop_inv N op starts ends strides i sd =
     (let s = fst sd; keep = retained_dims ends i in
      snd sd = int (length keep) \<and> length keep \<le> N \<and> DIM s = N \<and> slice_op s = op
      \<and> slice_starts s = map Some (take i starts) @ replicate (op_Rank op - i) None
      \<and> slice_strides s = map Some (take i strides) @ replicate (op_Rank op - i) None
      \<and> slice_dims s = map (Some \<circ> int) keep @ replicate (N - length keep) None
      \<and> length (slice_sizes s) = N
      \<and> (\<forall>k<length keep. slice_sizes s ! k =
            Some \<lceil>real_of_int (resolved_end op ends (keep ! k) - starts ! (keep ! k))
                    / real_of_int (strides ! k)\<rceil>))"

section \<open>Unchecked array access\<close>

text \<open>
  \<^verbatim>\<open>std::array::operator[]\<close> performs no check: in an ordinary build an access past the end
  of a member array goes to the memory behind the array and the execution continues. The
  lists above detect such an access and stop at it. To follow the execution past it, an
  array is the map from an index to the cell at that distance from the array's start;
  the declared length plays no part in an access.
\<close>

type_synonym 'a cells = "int \<Rightarrow> 'a option"

definition cells_uninit :: "'a cells" where
  "cells_uninit = (\<lambda>_. None)"

definition cells_set :: "'a cells \<Rightarrow> int \<Rightarrow> 'a \<Rightarrow> 'a cells" where
  "cells_set f i v = f(i := Some v)"

definition cells_get :: "'a cells \<Rightarrow> int \<Rightarrow> error + 'a" where
  "cells_get f i = (case f i of None \<Rightarrow> Inl Indeterminate | Some v \<Rightarrow> Inr v)"

text \<open>
  The constructor of \<^verbatim>\<open>SliceOp\<close> with this access; it differs from \<open>SliceOp\<close> above in
  nothing else. The cells past the end of \<^verbatim>\<open>sizes_\<close> and \<^verbatim>\<open>dims_\<close> lie in the members that
  follow them in the object. The loop reads back only the size it has just written and
  \<^verbatim>\<open>strides_[d]\<close> with \<open>d \<le> i\<close>; \<^verbatim>\<open>strides_\<close> is the last member, behind \<^verbatim>\<open>starts_\<close>, and no
  write at an index below the operand's rank past \<^verbatim>\<open>sizes_\<close> or \<^verbatim>\<open>dims_\<close> reaches it. So
  keeping the cells of the four arrays apart does not change what the loop reads, nor
  the count \<open>d\<close> that the assertion tests.
\<close>

record 'a SliceOp_raw =
  raw_DIM :: nat
  raw_op :: "'a operator_t"
  raw_sizes :: "index_t cells"
  raw_dims :: "int cells"
  raw_starts :: "index_t cells"
  raw_strides :: "index_t cells"

definition SliceOp_raw_step ::
  "index_t list \<Rightarrow> index_t list \<Rightarrow> index_t list \<Rightarrow> nat \<Rightarrow> 'a SliceOp_raw \<times> int
     \<Rightarrow> error + ('a SliceOp_raw \<times> int)" where
  "SliceOp_raw_step starts ends strides i sd =
     (let s = fst sd; d = snd sd; start = starts ! i; end = ends ! i;
          s1 = s\<lparr>raw_starts := cells_set (raw_starts s) (int i) start,
                 raw_strides := cells_set (raw_strides s) (int i) (strides ! i)\<rparr>
      in
      if end \<noteq> matxDropDim then
        let dms = cells_set (raw_dims s1) d (int i) in
        bindE (if end = matxEnd
               then bindE (op_Size (raw_op s1) (int i))
                      (\<lambda>n. Inr (cells_set (raw_sizes s1) d (n - start)))
               else Inr (cells_set (raw_sizes s1) d (end - start))) (\<lambda>szs.
        bindE (cells_get szs d) (\<lambda>n.
        bindE (cells_get (raw_strides s1) d) (\<lambda>st.
        bindE (ceil_div_double n st) (\<lambda>c.
        Inr (s1\<lparr>raw_dims := dms, raw_sizes := cells_set szs d c\<rparr>, d + 1)))))
      else Inr (s1, d))"

primrec SliceOp_raw_loop ::
  "index_t list \<Rightarrow> index_t list \<Rightarrow> index_t list \<Rightarrow> nat list \<Rightarrow> 'a SliceOp_raw \<times> int
     \<Rightarrow> error + ('a SliceOp_raw \<times> int)" where
  "SliceOp_raw_loop starts ends strides [] sd = Inr sd"
| "SliceOp_raw_loop starts ends strides (i # is) sd =
     bindE (SliceOp_raw_step starts ends strides i sd) (SliceOp_raw_loop starts ends strides is)"

definition SliceOp_raw ::
  "nat \<Rightarrow> 'a operator_t \<Rightarrow> index_t list \<Rightarrow> index_t list \<Rightarrow> index_t list
     \<Rightarrow> error + 'a SliceOp_raw" where
  "SliceOp_raw N op starts ends strides =
     (if \<not> 0 < op_Rank op
      then Inl (StaticAssert ''SliceOp: Rank of operator must be greater than 0.'')
      else if \<not> N \<le> op_Rank op
      then Inl (StaticAssert ''SliceOp: DIM must be less than or equal to operator rank.'')
      else if length starts \<noteq> op_Rank op \<or> length ends \<noteq> op_Rank op
              \<or> length strides \<noteq> op_Rank op
      then Inl (StaticAssert ''std::array<shape_type, T::Rank()>'')
      else
        bindE (SliceOp_raw_loop starts ends strides [0..<op_Rank op]
                 (\<lparr> raw_DIM = N, raw_op = op, raw_sizes = cells_uninit, raw_dims = cells_uninit,
                     raw_starts = cells_uninit, raw_strides = cells_uninit \<rparr>, 0)) (\<lambda>sd.
        bindE (MATX_ASSERT_STR (snd sd = int N) matxInvalidDim
                 ''SliceOp: Number of dimensions without matxDropDim must equal new rank.'')
          (\<lambda>_. Inr (fst sd))))"


primrec Size_loop_raw :: "'a operand \<Rightarrow> nat list \<Rightarrow> index_t cells \<Rightarrow> error + index_t cells" where
  "Size_loop_raw a [] out = Inr out"
| "Size_loop_raw a (r # rs) out =
     bindE (op_Size a (int r)) (\<lambda>v. Size_loop_raw a rs (cells_set out (int r) v))"





section \<open>Tensors used as concrete inputs\<close>

text \<open>The element of \<open>coords\<close> at an index vector is the index vector itself.\<close>

definition coords :: "index_t list \<Rightarrow> index_t list" where
  "coords idx = idx"

definition T_4_12 :: "index_t list operator_t" where
  "T_4_12 = tensor_t [4, 12] coords"

definition A_4_3_2 :: "index_t list operand" where
  "A_4_3_2 = tensor_operand [4, 3, 2] coords"

definition B_3_5_2 :: "index_t list operand" where
  "B_3_5_2 = tensor_operand [3, 5, 2] coords"

definition A_4_3 :: "index_t list operand" where
  "A_4_3 = tensor_operand [4, 3] coords"

definition B_3_5 :: "index_t list operand" where
  "B_3_5 = tensor_operand [3, 5] coords"


section \<open>Evaluation rules\<close>

lemma bindE_Inr [simp]: "bindE (Inr x) f = f x"
  by (simp add: bindE_def)

lemma bindE_Inl [simp]: "bindE (Inl e) f = Inl e"
  by (simp add: bindE_def)

lemma bindE_eq_Inr: "(bindE m f = Inr y) = (\<exists>x. m = Inr x \<and> f x = Inr y)"
  by (cases m) simp_all

lemma bindE_assoc: "bindE (bindE m f) g = bindE m (\<lambda>x. bindE (f x) g)"
  by (cases m) simp_all

lemmas slice_eval =
  slice_def SliceOp_def SliceOp_step_def SliceOp_call_def SliceOp_Size_def SliceOp_Rank_def
  SliceOp_operator_def tensor_t_def array_set_def array_get_def array_uninit_def
  matxDropDim_def matxEnd_def ceil_div_double_def MATX_ASSERT_STR_def upt_rec coords_def
  T_4_12_def compose_starts_def compose_strides_def

lemmas transform_eval =
  tensor_operand_def tensor_t_def operator_t.extend_def array_set_def array_get_def
  array_uninit_def upt_rec coords_def is_device_executor_v_def getStream_def make_tensor_def
  operand_PreRun_def

section \<open>Arrays and the extent loops\<close>

lemma array_set_Inr:
  "0 \<le> i \<Longrightarrow> i < int (length xs) \<Longrightarrow> array_set xs i v = Inr (xs[nat i := Some v])"
  by (simp add: array_set_def)

lemma array_set_OutOfBounds:
  "int (length xs) \<le> i \<Longrightarrow> array_set xs i v = Inl OutOfBounds"
  by (simp add: array_set_def)

lemma array_get_Some:
  "0 \<le> i \<Longrightarrow> i < int (length xs) \<Longrightarrow> xs ! nat i = Some v \<Longrightarrow> array_get xs i = Inr v"
  by (simp add: array_get_def)

lemma array_get_OutOfBounds:
  "int (length xs) \<le> i \<Longrightarrow> array_get xs i = Inl OutOfBounds"
  by (simp add: array_get_def)

lemma Size_loop_append:
  "Size_loop a (xs @ ys) out = bindE (Size_loop a xs out) (Size_loop a ys)"
  by (induction xs arbitrary: out) (auto simp: bindE_def split: sum.splits)

lemma Size_loop_fills:
  assumes "\<forall>r\<in>set rs. r < length out \<and> (\<exists>v. op_Size a (int r) = Inr v)"
  shows "\<exists>out'. Size_loop a rs out = Inr out' \<and> length out' = length out
           \<and> (\<forall>k<length out. out' ! k =
                 (if k \<in> set rs then Some (projr (op_Size a (int k))) else out ! k))"
  using assms
proof (induction rs arbitrary: out)
  case Nil
  then show ?case by simp
next
  case (Cons r rs)
  from Cons.prems obtain v where v: "op_Size a (int r) = Inr v" and r: "r < length out"
    by auto
  let ?out = "out[r := Some v]"
  have "\<forall>r\<in>set rs. r < length ?out \<and> (\<exists>v. op_Size a (int r) = Inr v)"
    using Cons.prems by simp
  from Cons.IH [OF this] obtain out' where
    o: "Size_loop a rs ?out = Inr out'" "length out' = length ?out"
       "\<forall>k<length ?out. out' ! k =
          (if k \<in> set rs then Some (projr (op_Size a (int k))) else ?out ! k)"
    by blast
  have "Size_loop a (r # rs) out = Inr out'"
    using v r o(1) by (simp add: array_set_Inr)
  moreover have "length out' = length out" using o(2) by simp
  moreover have "\<forall>k<length out. out' ! k =
      (if k \<in> set (r # rs) then Some (projr (op_Size a (int k))) else out ! k)"
    using o(3) v by (auto simp: nth_list_update)
  ultimately show ?case by blast
qed

lemma Size_loop_upt:
  assumes "\<forall>d<n. \<exists>v. op_Size a (int d) = Inr v" and "n \<le> m"
  shows "Size_loop a [0..<n] (array_uninit m)
           = Inr (map (\<lambda>k. Some (projr (op_Size a (int k)))) [0..<n] @ replicate (m - n) None)"
proof -
  have "\<forall>r\<in>set [0..<n]. r < length (array_uninit m :: index_t array) \<and> (\<exists>v. op_Size a (int r) = Inr v)"
    using assms by (simp add: array_uninit_def)
  from Size_loop_fills [OF this] obtain out' where
    o: "Size_loop a [0..<n] (array_uninit m) = Inr out'" "length out' = m"
       "\<forall>k<m. out' ! k = (if k < n then Some (projr (op_Size a (int k))) else None)"
    by (auto simp: array_uninit_def)
  have "out' = map (\<lambda>k. Some (projr (op_Size a (int k)))) [0..<n] @ replicate (m - n) None"
    using o(2,3) assms(2) by (intro nth_equalityI) (auto simp: nth_append)
  with o(1) show ?thesis by simp
qed

lemma array_values_map_Some [simp]: "array_values (map Some vs) = Inr vs"
  by (induction vs) simp_all

lemma Size_loop_op_call [simp]: "Size_loop (a\<lparr>op_call := g\<rparr>) rs out = Size_loop a rs out"
  by (induction rs arbitrary: out) (auto simp: bindE_def split: sum.splits)

lemma MatMulOp_perm_loop_fills:
  assumes "\<forall>r\<in>set rs. r < length out \<and> r < length perm \<and> 0 \<le> perm ! r \<and> perm ! r < int (op_Rank a)"
    and "\<forall>d<op_Rank a. \<exists>v. op_Size a (int d) = Inr v"
    and "\<forall>d<op_Rank a. \<exists>v. op_Size b (int d) = Inr v"
    and "length out \<le> op_Rank a"
  shows "\<exists>out'. MatMulOp_perm_loop a b perm rs out = Inr out' \<and> length out' = length out
           \<and> (\<forall>k<length out. out' ! k = None \<longrightarrow> k \<notin> set rs \<and> out ! k = None)"
  using assms(1,4)
proof (induction rs arbitrary: out)
  case Nil
  then show ?case by simp
next
  case (Cons r rs)
  have r: "r < length out" "0 \<le> perm ! r" "perm ! r < int (op_Rank a)"
    using Cons.prems by auto
  have sz: "\<exists>v. op_Size a i = Inr v" "\<exists>v. op_Size b i = Inr v" if "0 \<le> i" "i < int (op_Rank a)" for i
    using assms(2) [rule_format, of "nat i"] assms(3) [rule_format, of "nat i"] that by auto
  have "r < op_Rank a" using r(1) Cons.prems(2) by simp
  then have "\<exists>v. op_Size a (int r) = Inr v" using assms(2) by simp
  then have "\<exists>v. (if perm ! r = int (op_Rank a) - 2 then op_Size a (perm ! r)
      else if perm ! r = int (op_Rank a) - 1 then op_Size b (perm ! r)
      else op_Size a (int r)) = Inr v"
    using sz [OF r(2,3)] by auto
  then obtain v where v:
    "(if perm ! r = int (op_Rank a) - 2 then op_Size a (perm ! r)
      else if perm ! r = int (op_Rank a) - 1 then op_Size b (perm ! r)
      else op_Size a (int r)) = Inr v"
    by blast
  let ?out = "out[r := Some v]"
  have "\<forall>r\<in>set rs. r < length ?out \<and> r < length perm \<and> 0 \<le> perm ! r \<and> perm ! r < int (op_Rank a)"
    using Cons.prems by simp
  moreover have "length ?out \<le> op_Rank a" using Cons.prems by simp
  ultimately obtain out' where
    o: "MatMulOp_perm_loop a b perm rs ?out = Inr out'" "length out' = length ?out"
       "\<forall>k<length ?out. out' ! k = None \<longrightarrow> k \<notin> set rs \<and> ?out ! k = None"
    using Cons.IH by blast
  have "MatMulOp_perm_loop a b perm (r # rs) out = Inr out'"
    using v r(1) o(1) by (simp add: array_set_Inr del: if_split)
  moreover have "length out' = length out" using o(2) by simp
  moreover have "\<forall>k<length out. out' ! k = None \<longrightarrow> k \<notin> set (r # rs) \<and> out ! k = None"
    using o(3) r(1) by (auto simp: nth_list_update split: if_splits)
  ultimately show ?case by blast
qed

lemma MatMulOp_perm_loop_upt:
  assumes "length perm = op_Rank a"
    and "\<forall>r<op_Rank a. 0 \<le> perm ! r \<and> perm ! r < int (op_Rank a)"
    and "\<forall>d<op_Rank a. \<exists>v. op_Size a (int d) = Inr v"
    and "\<forall>d<op_Rank a. \<exists>v. op_Size b (int d) = Inr v"
  shows "\<exists>vs. MatMulOp_perm_loop a b perm [0..<op_Rank a] (array_uninit (op_Rank a))
            = Inr (map Some vs) \<and> length vs = op_Rank a"
proof -
  have "\<forall>r\<in>set [0..<op_Rank a]. r < length (array_uninit (op_Rank a) :: index_t array)
          \<and> r < length perm \<and> 0 \<le> perm ! r \<and> perm ! r < int (op_Rank a)"
    using assms(1,2) by (simp add: array_uninit_def)
  moreover have "length (array_uninit (op_Rank a) :: index_t array) \<le> op_Rank a"
    by (simp add: array_uninit_def)
  ultimately obtain out' where
    o: "MatMulOp_perm_loop a b perm [0..<op_Rank a] (array_uninit (op_Rank a)) = Inr out'"
       "length out' = op_Rank a"
       "\<forall>k<op_Rank a. out' ! k \<noteq> None"
    using MatMulOp_perm_loop_fills [OF _ assms(3,4), of "[0..<op_Rank a]" "array_uninit (op_Rank a)" perm]
    by (auto simp: array_uninit_def)
  have "out' = map Some (map the out')"
    using o(2,3) by (intro nth_equalityI) auto
  with o(1,2) show ?thesis
    by (metis length_map)
qed

section \<open>Slices\<close>

text \<open>
  What the constructor and the element access compute, for every slice. The proofs follow
  the constructor's loop dimension by dimension.
\<close>

lemma retained_dims_Suc:
  "retained_dims ends (Suc i) =
     retained_dims ends i @ (if ends ! i \<noteq> matxDropDim then [i] else [])"
  by (simp add: retained_dims_def)

lemma retained_dims_bound: "j \<in> set (retained_dims ends i) \<Longrightarrow> j < i"
  by (simp add: retained_dims_def)

lemma length_retained_dims_le: "length (retained_dims ends i) \<le> i"
  unfolding retained_dims_def by (metis diff_zero length_filter_le length_upt)

lemma fill_next:
  "length ys = m \<Longrightarrow> m < N \<Longrightarrow>
   (map f ys @ replicate (N - m) None)[m := Some v] = map f ys @ Some v # replicate (N - Suc m) None"
  by (cases "N - m") (auto simp: list_update_append)

lemma SliceOp_loop_append:
  "SliceOp_loop starts ends strides (xs @ ys) sd =
     bindE (SliceOp_loop starts ends strides xs sd) (SliceOp_loop starts ends strides ys)"
  by (induction xs arbitrary: sd) (auto simp: bindE_def split: sum.splits)

lemma SliceOp_step_inv:
  assumes inv: "SliceOp_loop_inv N op starts ends strides i sd"
    and len: "length starts = op_Rank op" "length ends = op_Rank op" "length strides = op_Rank op"
    and i: "i < op_Rank op"
    and step: "SliceOp_step starts ends strides i sd = Inr sd'"
  shows "SliceOp_loop_inv N op starts ends strides (Suc i) sd'"
proof -
  obtain s d where sd: "sd = (s, d)" by (cases sd)
  let ?keep = "retained_dims ends i"
  let ?n = "op_Rank op"
  from inv sd have I:
    "d = int (length ?keep)" "length ?keep \<le> N" "DIM s = N" "slice_op s = op"
    "slice_starts s = map Some (take i starts) @ replicate (?n - i) None"
    "slice_strides s = map Some (take i strides) @ replicate (?n - i) None"
    "slice_dims s = map (Some \<circ> int) ?keep @ replicate (N - length ?keep) None"
    "length (slice_sizes s) = N"
    "\<forall>k<length ?keep. slice_sizes s ! k =
        Some \<lceil>real_of_int (resolved_end op ends (?keep ! k) - starts ! (?keep ! k))
                / real_of_int (strides ! k)\<rceil>"
    by (simp_all add: SliceOp_loop_inv_def Let_def)
  have ti: "length (take i starts) = i" "length (take i strides) = i"
    using i len by simp_all
  have sts: "array_set (slice_starts s) (int i) (starts ! i)
               = Inr (map Some (take (Suc i) starts) @ replicate (?n - Suc i) None)"
    using i len I(5) fill_next [OF ti(1) i, of Some "starts ! i"]
    by (simp add: array_set_def take_Suc_conv_app_nth)
  have strs: "array_set (slice_strides s) (int i) (strides ! i)
               = Inr (map Some (take (Suc i) strides) @ replicate (?n - Suc i) None)"
    using i len I(6) fill_next [OF ti(2) i, of Some "strides ! i"]
    by (simp add: array_set_def take_Suc_conv_app_nth)
  let ?s1 = "s\<lparr>slice_starts := map Some (take (Suc i) starts) @ replicate (?n - Suc i) None,
               slice_strides := map Some (take (Suc i) strides) @ replicate (?n - Suc i) None\<rparr>"
  show ?thesis
  proof (cases "ends ! i = matxDropDim")
    case True
    then have "sd' = (?s1, d)"
      using step sts strs by (simp add: SliceOp_step_def sd Let_def)
    then show ?thesis
      using I True by (simp add: SliceOp_loop_inv_def Let_def retained_dims_Suc)
  next
    case False
    let ?c = "length ?keep"
    let ?raw = "resolved_end op ends i - starts ! i"
    have "bindE (array_set (slice_dims s) d (int i)) (\<lambda>dms.
          bindE (if ends ! i = matxEnd
                 then bindE (op_Size op (int i)) (\<lambda>n. array_set (slice_sizes s) d (n - starts ! i))
                 else array_set (slice_sizes s) d (ends ! i - starts ! i)) (\<lambda>szs.
          bindE (array_get szs d) (\<lambda>n.
          bindE (array_get (map Some (take (Suc i) strides) @ replicate (?n - Suc i) None) d) (\<lambda>st.
          bindE (ceil_div_double n st) (\<lambda>c.
          bindE (array_set szs d c) (\<lambda>szs'.
          Inr (?s1\<lparr>slice_dims := dms, slice_sizes := szs'\<rparr>, d + 1))))))) = Inr sd'"
      using step sts strs False by (simp add: SliceOp_step_def sd Let_def I(4) cong: if_cong)
    then obtain dms szs n st c szs' where
      dms: "array_set (slice_dims s) d (int i) = Inr dms"
      and szs: "(if ends ! i = matxEnd
                 then bindE (op_Size op (int i)) (\<lambda>n. array_set (slice_sizes s) d (n - starts ! i))
                 else array_set (slice_sizes s) d (ends ! i - starts ! i)) = Inr szs"
      and n: "array_get szs d = Inr n"
      and st: "array_get (map Some (take (Suc i) strides) @ replicate (?n - Suc i) None) d = Inr st"
      and c: "ceil_div_double n st = Inr c"
      and szs': "array_set szs d c = Inr szs'"
      and res: "(Inr (?s1\<lparr>slice_dims := dms, slice_sizes := szs'\<rparr>, d + 1) :: error + _) = Inr sd'"
      unfolding bindE_eq_Inr by blast
    have sd': "sd' = (?s1\<lparr>slice_dims := dms, slice_sizes := szs'\<rparr>, d + 1)"
      using res by simp
    have cN: "?c < N"
      using dms I(1,7) by (simp add: array_set_def split: if_splits)
    have dms_eq: "dms = map (Some \<circ> int) (?keep @ [i]) @ replicate (N - Suc ?c) None"
      using dms I(1,7) cN fill_next [OF refl cN, where f = "Some \<circ> int" and v = "int i"]
      by (simp add: array_set_def)
    have szs_eq: "szs = (slice_sizes s)[?c := Some ?raw]"
      using szs I(1,8) cN
      by (auto simp: array_set_def resolved_end_def bindE_eq_Inr split: if_splits)
    have n_eq: "n = ?raw"
      using n szs_eq I(1,8) cN by (simp add: array_get_def)
    have ci: "?c \<le> i" by (rule length_retained_dims_le)
    have st_eq: "st = strides ! ?c"
      using st I(1) ci i len by (simp add: array_get_def nth_append split: if_splits)
    have c_eq: "c = \<lceil>real_of_int ?raw / real_of_int (strides ! ?c)\<rceil>"
      using c n_eq st_eq by (simp add: ceil_div_double_def split: if_splits)
    have szs'_eq: "szs' = (slice_sizes s)[?c := Some c]"
      using szs' szs_eq I(1,8) cN by (simp add: array_set_def)
    have keep': "retained_dims ends (Suc i) = ?keep @ [i]"
      using False by (simp add: retained_dims_Suc)
    have sizes: "\<forall>k<Suc ?c. szs' ! k =
        Some \<lceil>real_of_int (resolved_end op ends ((?keep @ [i]) ! k) - starts ! ((?keep @ [i]) ! k))
                / real_of_int (strides ! k)\<rceil>"
      using I(8,9) cN szs'_eq c_eq by (auto simp: nth_append nth_list_update less_Suc_eq)
    show ?thesis
      unfolding SliceOp_loop_inv_def Let_def keep' sd'
      using I(1,3,4,8) cN dms_eq szs'_eq sizes by simp
  qed
qed

lemma SliceOp_loop_inv_upt:
  assumes len: "length starts = op_Rank op" "length ends = op_Rank op" "length strides = op_Rank op"
    and i: "i \<le> op_Rank op"
    and loop: "SliceOp_loop starts ends strides [0..<i]
                 (\<lparr> DIM = N, slice_op = op, slice_sizes = array_uninit N,
                     slice_dims = array_uninit N, slice_starts = array_uninit (op_Rank op),
                     slice_strides = array_uninit (op_Rank op) \<rparr>, 0) = Inr sd"
  shows "SliceOp_loop_inv N op starts ends strides i sd"
  using i loop
proof (induction i arbitrary: sd)
  case 0
  then show ?case
    by (auto simp: SliceOp_loop_inv_def retained_dims_def array_uninit_def)
next
  case (Suc i)
  from Suc.prems(2) obtain sd0 where
    sd0: "SliceOp_loop starts ends strides [0..<i]
            (\<lparr> DIM = N, slice_op = op, slice_sizes = array_uninit N,
                slice_dims = array_uninit N, slice_starts = array_uninit (op_Rank op),
                slice_strides = array_uninit (op_Rank op) \<rparr>, 0) = Inr sd0"
    and step: "SliceOp_step starts ends strides i sd0 = Inr sd"
    by (auto simp: SliceOp_loop_append bindE_eq_Inr)
  have "SliceOp_loop_inv N op starts ends strides i sd0"
    using Suc.IH [OF _ sd0] Suc.prems(1) by simp
  from SliceOp_step_inv [OF this len _ step] Suc.prems(1) show ?case by simp
qed

lemma retained_dims_distinct: "distinct (retained_dims ends i)"
  by (simp add: retained_dims_def)

lemma retained_dims_all:
  assumes "length (retained_dims ends n) = n"
  shows "retained_dims ends n = [0..<n]"
proof -
  have "\<forall>j\<in>set [0..<n]. ends ! j \<noteq> matxDropDim"
  proof (rule ccontr)
    assume "\<not> ?thesis"
    then obtain j where "j \<in> set [0..<n]" "\<not> ends ! j \<noteq> matxDropDim" by blast
    then have "length (filter (\<lambda>j. ends ! j \<noteq> matxDropDim) [0..<n]) < length [0..<n]"
      by (rule length_filter_less)
    then show False using assms by (simp add: retained_dims_def)
  qed
  then show ?thesis by (simp add: retained_dims_def)
qed

lemma SliceOp_Inr:
  assumes "SliceOp N op starts ends strides = Inr s"
  shows "length starts = op_Rank op" "length ends = op_Rank op" "length strides = op_Rank op"
    and "DIM s = N" "slice_op s = op"
    and "slice_starts s = map Some starts" "slice_strides s = map Some strides"
    and "slice_dims s = map (Some \<circ> int) (retained_dims ends (op_Rank op))"
    and "length (retained_dims ends (op_Rank op)) = N"
    and "length (slice_sizes s) = N"
    and "\<forall>k<N. slice_sizes s ! k =
           Some \<lceil>real_of_int (resolved_end op ends (retained_dims ends (op_Rank op) ! k)
                                - starts ! (retained_dims ends (op_Rank op) ! k))
                   / real_of_int (strides ! k)\<rceil>"
proof -
  from assms have len:
    "length starts = op_Rank op" "length ends = op_Rank op" "length strides = op_Rank op"
    by (auto simp: SliceOp_def split: if_splits)
  from assms obtain sd where
    loop: "SliceOp_loop starts ends strides [0..<op_Rank op]
             (\<lparr> DIM = N, slice_op = op, slice_sizes = array_uninit N,
                 slice_dims = array_uninit N, slice_starts = array_uninit (op_Rank op),
                 slice_strides = array_uninit (op_Rank op) \<rparr>, 0) = Inr sd"
    and d: "snd sd = int N" and s: "s = fst sd"
    by (auto simp: SliceOp_def bindE_eq_Inr MATX_ASSERT_STR_def split: if_splits)
  have inv: "SliceOp_loop_inv N op starts ends strides (op_Rank op) sd"
    by (rule SliceOp_loop_inv_upt [OF len le_refl loop])
  show "length starts = op_Rank op" "length ends = op_Rank op" "length strides = op_Rank op"
    by (rule len)+
  show "DIM s = N" "slice_op s = op"
    using inv s by (simp_all add: SliceOp_loop_inv_def Let_def)
  show "slice_starts s = map Some starts" "slice_strides s = map Some strides"
    using inv s len by (simp_all add: SliceOp_loop_inv_def Let_def)
  show c: "length (retained_dims ends (op_Rank op)) = N"
    using inv d by (simp add: SliceOp_loop_inv_def Let_def)
  show "slice_dims s = map (Some \<circ> int) (retained_dims ends (op_Rank op))"
    using inv s c by (simp add: SliceOp_loop_inv_def Let_def)
  show "length (slice_sizes s) = N"
    using inv s by (simp add: SliceOp_loop_inv_def Let_def)
  show "\<forall>k<N. slice_sizes s ! k =
           Some \<lceil>real_of_int (resolved_end op ends (retained_dims ends (op_Rank op) ! k)
                                - starts ! (retained_dims ends (op_Rank op) ! k))
                   / real_of_int (strides ! k)\<rceil>"
    using inv s c by (simp add: SliceOp_loop_inv_def Let_def)
qed

lemma SliceOp_call_starts_fills:
  assumes "slice_starts s = map Some starts"
    and "\<forall>i\<in>set is. i < length starts \<and> i < length ind"
  shows "\<exists>ind'. SliceOp_call_starts s is ind = Inr ind' \<and> length ind' = length ind
           \<and> (\<forall>k<length ind. ind' ! k = (if k \<in> set is then Some (starts ! k) else ind ! k))"
  using assms(2)
proof (induction "is" arbitrary: ind)
  case Nil
  then show ?case by simp
next
  case (Cons i "is")
  have i: "i < length starts" "i < length ind" using Cons.prems by auto
  let ?ind = "ind[i := Some (starts ! i)]"
  have "\<forall>i\<in>set is. i < length starts \<and> i < length ?ind" using Cons.prems by simp
  from Cons.IH [OF this] obtain ind' where
    o: "SliceOp_call_starts s is ?ind = Inr ind'" "length ind' = length ?ind"
       "\<forall>k<length ?ind. ind' ! k = (if k \<in> set is then Some (starts ! k) else ?ind ! k)"
    by blast
  have "SliceOp_call_starts s (i # is) ind = Inr ind'"
    using i o(1) assms(1) by (simp add: array_get_def array_set_def)
  moreover have "length ind' = length ind" using o(2) by simp
  moreover have "\<forall>k<length ind. ind' ! k =
      (if k \<in> set (i # is) then Some (starts ! k) else ind ! k)"
    using o(3) by (auto simp: nth_list_update)
  ultimately show ?case by blast
qed

lemma SliceOp_call_starts_upt:
  assumes "slice_starts s = map Some starts" and "length ind = length starts"
  shows "SliceOp_call_starts s [0..<length starts] ind = Inr (map Some starts)"
proof -
  have "\<forall>i\<in>set [0..<length starts]. i < length starts \<and> i < length ind"
    using assms(2) by simp
  from SliceOp_call_starts_fills [OF assms(1) this] obtain ind' where
    o: "SliceOp_call_starts s [0..<length starts] ind = Inr ind'" "length ind' = length ind"
       "\<forall>k<length ind. ind' ! k =
          (if k \<in> set [0..<length starts] then Some (starts ! k) else ind ! k)"
    by blast
  have "ind' = map Some starts"
    using o(2,3) assms(2) by (intro nth_equalityI) auto
  with o(1) show ?thesis by simp
qed

lemma SliceOp_call_strides_fills:
  assumes dims: "slice_dims s = map (Some \<circ> int) keep"
    and strs: "slice_strides s = map Some strides"
    and keep: "distinct keep"
    and ks: "distinct ks"
      "\<forall>k\<in>set ks. k < length keep \<and> k < length strides \<and> keep ! k < length vs"
  shows "\<exists>vs'. SliceOp_call_strides s inds ks (map Some vs) = Inr (map Some vs')
           \<and> length vs' = length vs
           \<and> (\<forall>k\<in>set ks. vs' ! (keep ! k) = vs ! (keep ! k) + inds ! k * strides ! k)
           \<and> (\<forall>j<length vs. j \<notin> (\<lambda>k. keep ! k) ` set ks \<longrightarrow> vs' ! j = vs ! j)"
  using ks
proof (induction ks arbitrary: vs)
  case Nil
  then show ?case by simp
next
  case (Cons k ks)
  have k: "k < length keep" "k < length strides" "keep ! k < length vs" "k \<notin> set ks"
    using Cons.prems by auto
  let ?j = "keep ! k"
  let ?vs = "vs[?j := vs ! ?j + inds ! k * strides ! k]"
  have "distinct ks" "\<forall>k\<in>set ks. k < length keep \<and> k < length strides \<and> keep ! k < length ?vs"
    using Cons.prems by auto
  from Cons.IH [OF this] obtain vs' where
    o: "SliceOp_call_strides s inds ks (map Some ?vs) = Inr (map Some vs')"
       "length vs' = length ?vs"
       "\<forall>k\<in>set ks. vs' ! (keep ! k) = ?vs ! (keep ! k) + inds ! k * strides ! k"
       "\<forall>j<length ?vs. j \<notin> (\<lambda>k. keep ! k) ` set ks \<longrightarrow> vs' ! j = ?vs ! j"
    by blast
  have ne: "keep ! k' \<noteq> ?j" if "k' \<in> set ks" for k'
  proof -
    have "k' < length keep" "k' \<noteq> k" using that Cons.prems k(4) by auto
    then show ?thesis using keep k(1) by (simp add: nth_eq_iff_index_eq)
  qed
  have "SliceOp_call_strides s inds (k # ks) (map Some vs) = Inr (map Some vs')"
    using k o(1) dims strs by (simp add: array_get_def array_set_def map_update)
  moreover have "length vs' = length vs" using o(2) by simp
  moreover have "\<forall>k'\<in>set (k # ks). vs' ! (keep ! k') = vs ! (keep ! k') + inds ! k' * strides ! k'"
  proof
    fix k' assume k': "k' \<in> set (k # ks)"
    show "vs' ! (keep ! k') = vs ! (keep ! k') + inds ! k' * strides ! k'"
    proof (cases "k' = k")
      case True
      have "?j \<notin> (\<lambda>k. keep ! k) ` set ks"
      proof
        assume "?j \<in> (\<lambda>k. keep ! k) ` set ks"
        then obtain k' where "k' \<in> set ks" "keep ! k' = ?j" by auto
        then show False using ne by simp
      qed
      then have "vs' ! ?j = ?vs ! ?j" using o(4) k(3) by simp
      then show ?thesis using True k(3) by simp
    next
      case False
      then have in_ks: "k' \<in> set ks" using k' by simp
      have "?j \<noteq> keep ! k'" using ne [OF in_ks] by simp
      then show ?thesis using o(3) in_ks by simp
    qed
  qed
  moreover have "\<forall>j<length vs. j \<notin> (\<lambda>k. keep ! k) ` set (k # ks) \<longrightarrow> vs' ! j = vs ! j"
    using o(4) by auto
  ultimately show ?case by blast
qed

text \<open>
  Element access of a constructed slice reads the operand at an index vector \<open>r\<close> of the
  operand's rank: a dropped dimension has its start offset as coordinate, and the
  \<open>k\<close>-th retained dimension has its start offset plus \<open>inds[k] * strides[k]\<close>, with the
  stride taken at the output position \<open>k\<close>.
\<close>

lemma SliceOp_call_closed_form:
  assumes c: "SliceOp N op starts ends strides = Inr s" and inds: "length inds = N"
  shows "\<exists>r. SliceOp_call s inds = op_call op r \<and> length r = op_Rank op
           \<and> (\<forall>k<N. r ! (retained_dims ends (op_Rank op) ! k)
                        = starts ! (retained_dims ends (op_Rank op) ! k) + inds ! k * strides ! k)
           \<and> (\<forall>j<op_Rank op. ends ! j = matxDropDim \<longrightarrow> r ! j = starts ! j)"
proof -
  let ?n = "op_Rank op"
  let ?keep = "retained_dims ends ?n"
  note S = SliceOp_Inr [OF c]
  have Nn: "N \<le> ?n" using S(9) length_retained_dims_le [of ends ?n] by simp
  have first: "SliceOp_call_starts s [0..<?n] (map Some (inds @ replicate (?n - N) 0))
                 = Inr (map Some starts)"
    using SliceOp_call_starts_upt [OF S(6), of "map Some (inds @ replicate (?n - N) 0)"]
      S(1) inds Nn by simp
  have "\<forall>k\<in>set [0..<N]. k < length ?keep \<and> k < length strides \<and> ?keep ! k < length starts"
    using S(9) S(3) S(1) Nn retained_dims_bound [of _ ends ?n] by (auto intro: nth_mem)
  from SliceOp_call_strides_fills [OF S(8) S(7) retained_dims_distinct distinct_upt this, of inds]
  obtain r where
    r: "SliceOp_call_strides s inds [0..<N] (map Some starts) = Inr (map Some r)"
       "length r = length starts"
       "\<forall>k\<in>set [0..<N]. r ! (?keep ! k) = starts ! (?keep ! k) + inds ! k * strides ! k"
       "\<forall>j<length starts. j \<notin> (\<lambda>k. ?keep ! k) ` set [0..<N] \<longrightarrow> r ! j = starts ! j"
    by blast
  have call: "SliceOp_call s inds = op_call op r"
    using first r(1) inds S(4,5) by (simp add: SliceOp_call_def)
  have drop: "r ! j = starts ! j" if "j < ?n" "ends ! j = matxDropDim" for j
  proof -
    have "j \<notin> set ?keep" using that(2) by (simp add: retained_dims_def)
    then have "j \<notin> (\<lambda>k. ?keep ! k) ` set [0..<N]" using S(9) by auto
    then show ?thesis using r(4) that(1) S(1) by simp
  qed
  show ?thesis
    using call r(2,3) S(1) drop by auto
qed

text \<open>
  A slice that drops no dimension reads the operand where the spec's rule says, and two
  such slices compose into the slice with start \<open>s1 + s2 * st1\<close> and stride \<open>st1 * st2\<close>.
\<close>

lemma spec_slice_index_no_drop:
  assumes "length es = length ss" "length sts = length ss" "length inds = length ss"
    and "\<forall>e\<in>set es. e \<noteq> matxDropDim"
  shows "length (spec_slice_index ss es sts inds) = length ss
       \<and> (\<forall>j<length ss. spec_slice_index ss es sts inds ! j = ss ! j + inds ! j * sts ! j)"
  using assms
proof (induction ss arbitrary: es sts inds)
  case Nil
  then show ?case by simp
next
  case (Cons s ss)
  then obtain e es' st sts' i inds' where
    eq: "es = e # es'" "sts = st # sts'" "inds = i # inds'"
    by (metis length_Suc_conv)
  have IH: "length (spec_slice_index ss es' sts' inds') = length ss
       \<and> (\<forall>j<length ss. spec_slice_index ss es' sts' inds' ! j = ss ! j + inds' ! j * sts' ! j)"
    using Cons.prems eq by (intro Cons.IH) auto
  have e: "e \<noteq> matxDropDim" using Cons.prems(4) eq by simp
  show ?case
    unfolding eq using IH e by (auto simp: nth_Cons split: nat.splits)
qed

lemma SliceOp_call_no_drop:
  assumes c: "SliceOp (op_Rank op) op starts ends strides = Inr s"
    and inds: "length inds = op_Rank op"
  shows "SliceOp_call s inds = op_call op (spec_slice_index starts ends strides inds)"
proof -
  let ?n = "op_Rank op"
  note S = SliceOp_Inr [OF c]
  have keep: "retained_dims ends ?n = [0..<?n]"
    by (rule retained_dims_all [OF S(9)])
  then have nodrop: "\<forall>e\<in>set ends. e \<noteq> matxDropDim"
    using S(2) by (auto simp: retained_dims_def in_set_conv_nth filter_id_conv)
  from SliceOp_call_closed_form [OF c inds] obtain r where
    r: "SliceOp_call s inds = op_call op r" "length r = ?n"
       "\<forall>k<?n. r ! k = starts ! k + inds ! k * strides ! k"
    unfolding keep by auto
  have spec: "length (spec_slice_index starts ends strides inds) = ?n"
    "\<forall>j<?n. spec_slice_index starts ends strides inds ! j = starts ! j + inds ! j * strides ! j"
    using spec_slice_index_no_drop [of ends starts strides inds] S(1,2,3) inds nodrop by auto
  have "r = spec_slice_index starts ends strides inds"
    using r(2,3) spec by (intro nth_equalityI) auto
  with r(1) show ?thesis by simp
qed

lemma compose_nth:
  assumes "length s1 = n" "length st1 = n" "length s2 = n" "length st2 = n" "j < n"
  shows "compose_starts s1 st1 s2 ! j = s1 ! j + s2 ! j * st1 ! j"
    and "compose_strides st1 st2 ! j = st1 ! j * st2 ! j"
  using assms by (simp_all add: compose_starts_def compose_strides_def)

lemma slice_compose_same_rank:
  assumes inner: "slice (op_Rank T) T s1 e1 st1 = Inr inner"
    and outer: "slice (op_Rank T) (SliceOp_operator inner) s2 e2 st2 = Inr outer"
    and single: "slice (op_Rank T) T (compose_starts s1 st1 s2) e3 (compose_strides st1 st2)
                   = Inr single"
    and inds: "length inds = op_Rank T"
  shows "SliceOp_call outer inds = SliceOp_call single inds"
proof -
  let ?n = "op_Rank T"
  note I = SliceOp_Inr [OF inner [unfolded slice_def]]
  have rk: "op_Rank (SliceOp_operator inner) = ?n"
    using I(4) by (simp add: SliceOp_operator_def SliceOp_Rank_def)
  note O = SliceOp_Inr [OF outer [unfolded slice_def rk [symmetric]], unfolded rk]
  have o: "SliceOp_call outer inds = SliceOp_call inner (spec_slice_index s2 e2 st2 inds)"
    using SliceOp_call_no_drop [OF outer [unfolded slice_def rk [symmetric]]] inds rk
    by (simp add: SliceOp_operator_def)
  have nodrop2: "\<forall>e\<in>set e2. e \<noteq> matxDropDim"
    using retained_dims_all [OF O(9)] O(2)
    by (auto simp: retained_dims_def in_set_conv_nth filter_id_conv)
  have mid: "length (spec_slice_index s2 e2 st2 inds) = ?n"
    "\<forall>j<?n. spec_slice_index s2 e2 st2 inds ! j = s2 ! j + inds ! j * st2 ! j"
    using spec_slice_index_no_drop [of e2 s2 st2 inds] O(1,2,3) inds nodrop2 by auto
  have i: "SliceOp_call inner (spec_slice_index s2 e2 st2 inds)
             = op_call T (spec_slice_index s1 e1 st1 (spec_slice_index s2 e2 st2 inds))"
    by (rule SliceOp_call_no_drop [OF inner [unfolded slice_def] mid(1)])
  have nodrop1: "\<forall>e\<in>set e1. e \<noteq> matxDropDim"
    using retained_dims_all [OF I(9)] I(2)
    by (auto simp: retained_dims_def in_set_conv_nth filter_id_conv)
  have lhs: "length (spec_slice_index s1 e1 st1 (spec_slice_index s2 e2 st2 inds)) = ?n"
    "\<forall>j<?n. spec_slice_index s1 e1 st1 (spec_slice_index s2 e2 st2 inds) ! j
        = s1 ! j + (s2 ! j + inds ! j * st2 ! j) * st1 ! j"
    using spec_slice_index_no_drop [of e1 s1 st1 "spec_slice_index s2 e2 st2 inds"]
      I(1,2,3) mid nodrop1 by auto
  note G = SliceOp_Inr [OF single [unfolded slice_def]]
  have s: "SliceOp_call single inds
             = op_call T (spec_slice_index (compose_starts s1 st1 s2) e3 (compose_strides st1 st2) inds)"
    by (rule SliceOp_call_no_drop [OF single [unfolded slice_def] inds])
  have nodrop3: "\<forall>e\<in>set e3. e \<noteq> matxDropDim"
    using retained_dims_all [OF G(9)] G(2)
    by (auto simp: retained_dims_def in_set_conv_nth filter_id_conv)
  have rhs: "length (spec_slice_index (compose_starts s1 st1 s2) e3 (compose_strides st1 st2) inds) = ?n"
    "\<forall>j<?n. spec_slice_index (compose_starts s1 st1 s2) e3 (compose_strides st1 st2) inds ! j
        = (s1 ! j + s2 ! j * st1 ! j) + inds ! j * (st1 ! j * st2 ! j)"
    using spec_slice_index_no_drop
            [of e3 "compose_starts s1 st1 s2" "compose_strides st1 st2" inds]
      G(1,2,3) inds nodrop3 compose_nth [OF I(1) I(3) O(1) O(3)] by auto
  have "spec_slice_index s1 e1 st1 (spec_slice_index s2 e2 st2 inds)
          = spec_slice_index (compose_starts s1 st1 s2) e3 (compose_strides st1 st2) inds"
    using lhs rhs by (intro nth_equalityI) (auto simp: algebra_simps)
  with o i s show ?thesis by simp
qed

text \<open>
  The extent at output position \<open>k\<close> is \<open>ceil((resolved_end - start) / strides[k])\<close> with
  the start and end of the \<open>k\<close>-th retained dimension; when no dimension is dropped this
  is the stride of the same dimension.
\<close>

lemma SliceOp_Size_closed_form:
  assumes c: "SliceOp N op starts ends strides = Inr s" and k: "k < N"
  shows "SliceOp_Size s (int k) =
           Inr \<lceil>real_of_int (resolved_end op ends (retained_dims ends (op_Rank op) ! k)
                                - starts ! (retained_dims ends (op_Rank op) ! k))
                   / real_of_int (strides ! k)\<rceil>"
  using SliceOp_Inr(10,11) [OF c] k by (simp add: SliceOp_Size_def array_get_def)

lemma SliceOp_Size_no_drop:
  assumes c: "SliceOp (op_Rank op) op starts ends strides = Inr s" and k: "k < op_Rank op"
  shows "SliceOp_Size s (int k) =
           Inr \<lceil>real_of_int (resolved_end op ends k - starts ! k) / real_of_int (strides ! k)\<rceil>"
  using SliceOp_Size_closed_form [OF c k] retained_dims_all [OF SliceOp_Inr(9) [OF c]] k
  by simp

lemma SliceOp_retained_mismatch_fails:
  assumes "length (retained_dims ends (op_Rank op)) \<noteq> N"
  shows "\<exists>e. SliceOp N op starts ends strides = Inl e"
proof (cases "SliceOp N op starts ends strides")
  case (Inl e)
  then show ?thesis by blast
next
  case (Inr s)
  from SliceOp_Inr(9) [OF Inr] assms show ?thesis by simp
qed

text \<open>
  The number of retained dimensions against the declared rank \<open>N\<close>, for nonzero strides
  and an operand whose extents can be read: with fewer retained dimensions the
  construction fails with the diagnostic, with more it writes out of bounds before the
  assertion, and with exactly \<open>N\<close> it succeeds and records the retained dimensions in
  their original order.
\<close>

lemma array_get_update:
  "i < length xs \<Longrightarrow> array_get (xs[i := Some v]) (int i) = Inr v"
  by (simp add: array_get_def)

lemma SliceOp_loop_single:
  "SliceOp_loop starts ends strides [i] sd = SliceOp_step starts ends strides i sd"
  by (cases "SliceOp_step starts ends strides i sd") simp_all

lemma SliceOp_loop_snoc:
  "SliceOp_loop starts ends strides (xs @ [i]) sd =
     bindE (SliceOp_loop starts ends strides xs sd) (SliceOp_step starts ends strides i)"
  by (cases "SliceOp_loop starts ends strides xs sd")
     (simp_all add: SliceOp_loop_append SliceOp_loop_single del: SliceOp_loop.simps)

lemma SliceOp_step_total:
  assumes inv: "SliceOp_loop_inv N op starts ends strides i sd"
    and len: "length starts = op_Rank op" "length ends = op_Rank op" "length strides = op_Rank op"
    and i: "i < op_Rank op"
    and sz: "ends ! i = matxEnd \<longrightarrow> (\<exists>v. op_Size op (int i) = Inr v)"
    and nz: "strides ! length (retained_dims ends i) \<noteq> 0"
  shows "(ends ! i = matxDropDim \<or> length (retained_dims ends i) < N
            \<longrightarrow> (\<exists>sd'. SliceOp_step starts ends strides i sd = Inr sd'))
       \<and> (ends ! i \<noteq> matxDropDim \<and> length (retained_dims ends i) = N
            \<longrightarrow> SliceOp_step starts ends strides i sd = Inl OutOfBounds)"
proof -
  obtain s d where sd: "sd = (s, d)" by (cases sd)
  let ?keep = "retained_dims ends i"
  let ?c = "length ?keep"
  let ?n = "op_Rank op"
  from inv sd have I:
    "d = int ?c" "?c \<le> N" "DIM s = N" "slice_op s = op"
    "slice_starts s = map Some (take i starts) @ replicate (?n - i) None"
    "slice_strides s = map Some (take i strides) @ replicate (?n - i) None"
    "slice_dims s = map (Some \<circ> int) ?keep @ replicate (N - ?c) None"
    "length (slice_sizes s) = N"
    by (simp_all add: SliceOp_loop_inv_def Let_def)
  have ti: "length (take i starts) = i" "length (take i strides) = i"
    using i len by simp_all
  have sts: "array_set (slice_starts s) (int i) (starts ! i)
               = Inr (map Some (take (Suc i) starts) @ replicate (?n - Suc i) None)"
    using i len I(5) fill_next [OF ti(1) i, of Some "starts ! i"]
    by (simp add: array_set_def take_Suc_conv_app_nth)
  have strs: "array_set (slice_strides s) (int i) (strides ! i)
               = Inr (map Some (take (Suc i) strides) @ replicate (?n - Suc i) None)"
    using i len I(6) fill_next [OF ti(2) i, of Some "strides ! i"]
    by (simp add: array_set_def take_Suc_conv_app_nth)
  have ldims: "length (slice_dims s) = N" using I(2,7) by simp
  have dropped: "\<exists>sd'. SliceOp_step starts ends strides i sd = Inr sd'"
    if "ends ! i = matxDropDim"
    using that sts strs by (simp add: SliceOp_step_def sd Let_def)
  have full: "SliceOp_step starts ends strides i sd = Inl OutOfBounds"
    if "ends ! i \<noteq> matxDropDim" "?c = N"
    using that sts strs I(1) ldims by (simp add: SliceOp_step_def sd Let_def array_set_def)
  have room: "\<exists>sd'. SliceOp_step starts ends strides i sd = Inr sd'"
    if r: "ends ! i \<noteq> matxDropDim" "?c < N"
  proof -
    have ci: "?c \<le> i" by (rule length_retained_dims_le)
    have st: "array_get (map Some (take (Suc i) strides) @ replicate (?n - Suc i) None) (int ?c)
                = Inr (strides ! ?c)"
      using ci i len by (simp add: array_get_def nth_append)
    show ?thesis
    proof (cases "ends ! i = matxEnd")
      case True
      then obtain v where v: "op_Size op (int i) = Inr v" using sz by blast
      show ?thesis
        using r True v sts strs st nz I(1,4,8) ldims
        by (simp add: SliceOp_step_def sd Let_def array_set_def array_get_update ceil_div_double_def)
    next
      case False
      show ?thesis
        using r False sts strs st nz I(1,4,8) ldims
        by (simp add: SliceOp_step_def sd Let_def array_set_def array_get_update ceil_div_double_def)
    qed
  qed
  from dropped full room show ?thesis by blast
qed

lemma SliceOp_loop_total:
  assumes len: "length starts = op_Rank op" "length ends = op_Rank op" "length strides = op_Rank op"
    and sz: "\<forall>j<op_Rank op. ends ! j = matxEnd \<longrightarrow> (\<exists>v. op_Size op (int j) = Inr v)"
    and nz: "\<forall>k<op_Rank op. strides ! k \<noteq> 0"
    and i: "i \<le> op_Rank op"
  shows "(length (retained_dims ends i) \<le> N \<longrightarrow>
            (\<exists>sd. SliceOp_loop starts ends strides [0..<i]
                     (\<lparr> DIM = N, slice_op = op, slice_sizes = array_uninit N,
                         slice_dims = array_uninit N, slice_starts = array_uninit (op_Rank op),
                         slice_strides = array_uninit (op_Rank op) \<rparr>, 0) = Inr sd))
       \<and> (N < length (retained_dims ends i) \<longrightarrow>
            SliceOp_loop starts ends strides [0..<i]
              (\<lparr> DIM = N, slice_op = op, slice_sizes = array_uninit N,
                  slice_dims = array_uninit N, slice_starts = array_uninit (op_Rank op),
                  slice_strides = array_uninit (op_Rank op) \<rparr>, 0) = Inl OutOfBounds)"
  using i
proof (induction i)
  case 0
  then show ?case by (simp add: retained_dims_def)
next
  case (Suc i)
  let ?init = "(\<lparr> DIM = N, slice_op = op, slice_sizes = array_uninit N,
                  slice_dims = array_uninit N, slice_starts = array_uninit (op_Rank op),
                  slice_strides = array_uninit (op_Rank op) \<rparr>, 0 :: int)"
  let ?c = "length (retained_dims ends i)"
  have i: "i < op_Rank op" "i \<le> op_Rank op" using Suc.prems by simp_all
  note IH = Suc.IH [OF i(2)]
  have unfold: "SliceOp_loop starts ends strides [0..<Suc i] ?init
      = bindE (SliceOp_loop starts ends strides [0..<i] ?init) (SliceOp_step starts ends strides i)"
    by (simp add: SliceOp_loop_snoc)
  have ci: "?c \<le> i" by (rule length_retained_dims_le)
  show ?case
  proof (cases "N < ?c")
    case True
    then have "N < length (retained_dims ends (Suc i))" by (simp add: retained_dims_Suc)
    moreover have "SliceOp_loop starts ends strides [0..<Suc i] ?init = Inl OutOfBounds"
      unfolding unfold using IH True by simp
    ultimately show ?thesis by simp
  next
    case False
    then obtain sd where sd: "SliceOp_loop starts ends strides [0..<i] ?init = Inr sd"
      using IH by auto
    have inv: "SliceOp_loop_inv N op starts ends strides i sd"
      by (rule SliceOp_loop_inv_upt [OF len i(2) sd])
    have "strides ! ?c \<noteq> 0" using nz ci i(1) by simp
    from SliceOp_step_total [OF inv len i(1) sz [THEN spec, THEN mp, OF i(1)] this]
    have step:
      "ends ! i = matxDropDim \<or> ?c < N \<Longrightarrow> \<exists>sd'. SliceOp_step starts ends strides i sd = Inr sd'"
      "ends ! i \<noteq> matxDropDim \<Longrightarrow> ?c = N \<Longrightarrow> SliceOp_step starts ends strides i sd = Inl OutOfBounds"
      by blast+
    show ?thesis
      unfolding unfold sd using step False
      by (auto simp: retained_dims_Suc split: if_splits)
  qed
qed

lemma SliceOp_retained_count:
  assumes rank: "0 < op_Rank op" "N \<le> op_Rank op"
    and len: "length starts = op_Rank op" "length ends = op_Rank op" "length strides = op_Rank op"
    and sz: "\<forall>j<op_Rank op. ends ! j = matxEnd \<longrightarrow> (\<exists>v. op_Size op (int j) = Inr v)"
    and nz: "\<forall>k<op_Rank op. strides ! k \<noteq> 0"
  shows "(length (retained_dims ends (op_Rank op)) < N \<longrightarrow>
            SliceOp N op starts ends strides
              = Inl (matxInvalidDim
                  ''SliceOp: Number of dimensions without matxDropDim must equal new rank.''))
       \<and> (N < length (retained_dims ends (op_Rank op)) \<longrightarrow>
            SliceOp N op starts ends strides = Inl OutOfBounds)
       \<and> (length (retained_dims ends (op_Rank op)) = N \<longrightarrow>
            (\<exists>s. SliceOp N op starts ends strides = Inr s
               \<and> slice_dims s = map (Some \<circ> int) (retained_dims ends (op_Rank op))))"
proof -
  let ?init = "(\<lparr> DIM = N, slice_op = op, slice_sizes = array_uninit N,
                  slice_dims = array_uninit N, slice_starts = array_uninit (op_Rank op),
                  slice_strides = array_uninit (op_Rank op) \<rparr>, 0 :: int)"
  let ?c = "length (retained_dims ends (op_Rank op))"
  note T = SliceOp_loop_total [OF len sz nz le_refl, of N]
  have eq: "SliceOp N op starts ends strides =
      bindE (SliceOp_loop starts ends strides [0..<op_Rank op] ?init) (\<lambda>sd.
      bindE (MATX_ASSERT_STR (snd sd = int N) matxInvalidDim
               ''SliceOp: Number of dimensions without matxDropDim must equal new rank.'')
        (\<lambda>_. Inr (fst sd)))"
    using rank len by (simp add: SliceOp_def)
  have over: "SliceOp N op starts ends strides = Inl OutOfBounds" if "N < ?c"
    unfolding eq using T that by simp
  have le: "\<exists>sd. SliceOp_loop starts ends strides [0..<op_Rank op] ?init = Inr sd
              \<and> snd sd = int ?c" if "?c \<le> N"
  proof -
    from T that obtain sd where
      sd: "SliceOp_loop starts ends strides [0..<op_Rank op] ?init = Inr sd" by blast
    from SliceOp_loop_inv_upt [OF len le_refl sd] have "snd sd = int ?c"
      by (simp add: SliceOp_loop_inv_def Let_def)
    with sd show ?thesis by blast
  qed
  have under: "SliceOp N op starts ends strides
      = Inl (matxInvalidDim
          ''SliceOp: Number of dimensions without matxDropDim must equal new rank.'')"
    if "?c < N"
  proof -
    from le that obtain sd where
      "SliceOp_loop starts ends strides [0..<op_Rank op] ?init = Inr sd" "snd sd = int ?c"
      by auto
    then show ?thesis unfolding eq using that by (simp add: MATX_ASSERT_STR_def)
  qed
  have exact: "\<exists>s. SliceOp N op starts ends strides = Inr s
               \<and> slice_dims s = map (Some \<circ> int) (retained_dims ends (op_Rank op))"
    if "?c = N"
  proof -
    from le that obtain sd where
      "SliceOp_loop starts ends strides [0..<op_Rank op] ?init = Inr sd" "snd sd = int ?c"
      by auto
    then have "SliceOp N op starts ends strides = Inr (fst sd)"
      unfolding eq using that by (simp add: MATX_ASSERT_STR_def)
    then show ?thesis using SliceOp_Inr(8) by blast
  qed
  from over under exact show ?thesis by blast
qed

lemma SliceOp_retained_count_example:
  "slice 2 T_4_12 [0, 0] [matxDropDim, 8] [1, 1]
     = Inl (matxInvalidDim
         ''SliceOp: Number of dimensions without matxDropDim must equal new rank.'')
   \<and> slice 1 T_4_12 [0, 0] [3, 8] [1, 1] = Inl OutOfBounds
   \<and> map_sum id slice_dims (slice 1 T_4_12 [0, 0] [matxDropDim, 8] [1, 1]) = Inr [Some 1]"
proof -
  have r: "op_Rank T_4_12 = 2" by (simp add: T_4_12_def tensor_t_def)
  have k1: "retained_dims [matxDropDim, 8] 2 = [1]" "retained_dims [3, 8] 2 = [0, 1]"
    by (simp_all add: retained_dims_def matxDropDim_def upt_rec)
  have h: "0 < op_Rank T_4_12" "length [0, 0 :: int] = op_Rank T_4_12"
    "length [1, 1 :: int] = op_Rank T_4_12" "\<forall>k<op_Rank T_4_12. [1, 1 :: int] ! k \<noteq> 0"
    unfolding r by (auto simp: less_Suc_eq numeral_2_eq_2)
  have e1: "length [matxDropDim, 8] = op_Rank T_4_12"
    "\<forall>j<op_Rank T_4_12. [matxDropDim, 8] ! j = matxEnd \<longrightarrow> (\<exists>v. op_Size T_4_12 (int j) = Inr v)"
    unfolding r by (auto simp: less_Suc_eq numeral_2_eq_2 matxDropDim_def matxEnd_def)
  have e2: "length [3, 8 :: int] = op_Rank T_4_12"
    "\<forall>j<op_Rank T_4_12. [3, 8] ! j = matxEnd \<longrightarrow> (\<exists>v. op_Size T_4_12 (int j) = Inr v)"
    unfolding r by (auto simp: less_Suc_eq numeral_2_eq_2 matxEnd_def)
  have n2: "2 \<le> op_Rank T_4_12" "1 \<le> op_Rank T_4_12" unfolding r by simp_all
  show ?thesis
    using SliceOp_retained_count [OF h(1) n2(1) h(2) e1(1) h(3) e1(2) h(4)]
      SliceOp_retained_count [OF h(1) n2(2) h(2) e2(1) h(3) e2(2) h(4)]
      SliceOp_retained_count [OF h(1) n2(2) h(2) e1(1) h(3) e1(2) h(4)]
    unfolding r k1 by (auto simp: slice_def)
qed

text \<open>
  C2. Composing two slices against the single slice with start \<open>s1 + s2 * st1\<close> and stride
  \<open>st1 * st2\<close>, at an input where the outer slice drops the dimension in front of the one
  it retains. The operand has the extents \<open>[4, 12]\<close>; the inner slice keeps both
  dimensions with the strides \<open>[2, 3]\<close>, the outer slice drops dimension 0 and has unit
  strides. At output index 1 the nested slices read the operand at \<open>[0, 3]\<close>, the single
  composed slice reads it at \<open>[0, 2]\<close>: it multiplies the index by the stride stored at
  the output position 0, not by the stride of the retained dimension 1. For slices that
  drop no dimension the law holds (\<open>slice_compose_same_rank\<close>).
\<close>

theorem slice_compose_diverges_after_drop:
  "bindE (slice 2 T_4_12 [0, 0] [matxEnd, matxEnd] [2, 3]) (\<lambda>inner.
   bindE (slice 1 (SliceOp_operator inner) [0, 0] [matxDropDim, matxEnd] [1, 1]) (\<lambda>outer.
   SliceOp_call outer [1])) = Inr [0, 3]
   \<and> bindE (slice 1 T_4_12 (compose_starts [0, 0] [2, 3] [0, 0]) [matxDropDim, matxEnd]
              (compose_strides [2, 3] [1, 1])) (\<lambda>single.
      SliceOp_call single [1]) = Inr [0, 2]"
  by (simp add: slice_eval)

text \<open>
  C3. Element access of a slice that drops dimension 0 of an operand with the extents
  \<open>[4, 12]\<close> and retains dimension 1 with stride 2 (starts \<open>[1, 0]\<close>, strides \<open>[1, 2]\<close>).
  The slice has rank 1 and the dropped dimension keeps its start offset 1 as coordinate,
  but output index 3 reads the operand at \<open>[1, 3]\<close>: the index is multiplied by
  \<^verbatim>\<open>strides_[0]\<close>, the stride of the dropped dimension. Adding index times stride at the
  retained dimension's original position gives \<open>[1, 6]\<close>. The const and the non-const
  \<^verbatim>\<open>operator()\<close> have the same body, so a write goes to the same place. What every access
  reads is \<open>SliceOp_call_closed_form\<close>; without dropped dimensions it is the spec's rule
  (\<open>SliceOp_call_no_drop\<close>).
\<close>

theorem slice_access_uses_stride_of_output_position:
  "map_sum id SliceOp_Rank (slice 1 T_4_12 [1, 0] [matxDropDim, matxEnd] [1, 2]) = Inr 1
   \<and> bindE (slice 1 T_4_12 [1, 0] [matxDropDim, matxEnd] [1, 2])
        (\<lambda>s. SliceOp_call s [3]) = Inr [1, 3]
   \<and> spec_slice_index [1, 0] [matxDropDim, matxEnd] [1, 2] [3] = [1, 6]"
  by (simp add: slice_eval)

text \<open>
  C4. The extent of the retained dimension of two slices that drop dimension 0 of an
  operand with the extents \<open>[4, 12]\<close>. With the strides \<open>[1, 2]\<close> and the end \<^verbatim>\<open>matxEnd\<close>
  the constructor stores 12, where \<open>ceil((12 - 0) / 2)\<close> is 6; with the strides \<open>[4, 1]\<close>
  and the explicit end 8 it stores 2, where stride 1 gives \<open>end - start = 8\<close>. In both the
  size is divided by \<^verbatim>\<open>strides_[d]\<close> with \<open>d\<close> the output position, which is the stride of
  the dropped dimension. The extent of every slice is \<open>SliceOp_Size_closed_form\<close>; without
  dropped dimensions it is the spec's formula (\<open>SliceOp_Size_no_drop\<close>).
\<close>

theorem slice_size_uses_stride_of_output_position:
  "bindE (slice 1 T_4_12 [0, 0] [matxDropDim, matxEnd] [1, 2])
     (\<lambda>s. SliceOp_Size s 0) = Inr 12
   \<and> spec_slice_sizes [4, 12] [0, 0] [matxDropDim, matxEnd] [1, 2] = [6]
   \<and> bindE (slice 1 T_4_12 [0, 0] [matxDropDim, 8] [4, 1])
       (\<lambda>s. SliceOp_Size s 0) = Inr 2
   \<and> spec_slice_sizes [4, 12] [0, 0] [matxDropDim, 8] [4, 1] = [8]"
  by (simp add: slice_eval)

text \<open>
  The unchecked constructor never stops inside its loop: for nonzero strides and an
  operand whose extents can be read it reaches the assertion with \<open>d\<close> the number of
  retained dimensions.
\<close>

lemma cells_get_set [simp]: "cells_get (cells_set f i v) i = Inr v"
  by (simp add: cells_get_def cells_set_def)








section \<open>Matrix multiply\<close>

text \<open>
  Without a permutation, on operands of one rank \<open>R \<ge> 2\<close>: the constructor prints nothing
  and reports the extents of \<open>A\<close> in the dimensions below \<open>R - 1\<close> (the batch dimensions and
  the second-to-last one) and the extent of \<open>B\<close> in the last dimension.
\<close>

lemma MatMulOp_no_permute:
  assumes "op_Rank b = op_Rank a" and "2 \<le> op_Rank a"
    and "\<forall>d<op_Rank a. \<exists>v. op_Size a (int d) = Inr v"
    and "\<exists>v. op_Size b (int (op_Rank a) - 1) = Inr v"
  shows "\<exists>n. MatMulOp a b alpha beta None = Inr (n, [])
           \<and> (\<forall>d<op_Rank a - 1. MatMulOp_Size n (int d) = op_Size a (int d))
           \<and> MatMulOp_Size n (int (op_Rank a) - 1) = op_Size b (int (op_Rank a) - 1)"
proof -
  obtain k where k: "op_Rank a = Suc (Suc k)"
    using assms(2) by (cases "op_Rank a"; cases "op_Rank a - 1") auto
  obtain m where m: "op_Size a (int k) = Inr m"
    using assms(3) [rule_format, of k] k by auto
  obtain l where l: "op_Size b (1 + int k) = Inr l"
    using assms(4) k by auto
  have batch: "\<forall>d<k. \<exists>v. op_Size a (int d) = Inr v"
    using assms(3) k by auto
  let ?pre = "map (\<lambda>j. Some (projr (op_Size a (int j)))) [0..<k]"
  have loop: "Size_loop a [0..<k] (array_uninit (Suc (Suc k))) = Inr (?pre @ [None, None])"
    using Size_loop_upt [OF batch, of "Suc (Suc k)"] by (simp add: numeral_2_eq_2)
  have res: "MatMulOp a b alpha beta None =
     Inr (\<lparr> matmul_a = a, matmul_b = b, matmul_alpha = alpha, matmul_beta = beta,
            matmul_perm = None, matmul_out_dims = ?pre @ [Some m, Some l],
            matmul_tmp_out = None \<rparr>, [])"
    unfolding MatMulOp_def Let_def assms(1) k
    using loop m l
    by (simp add: array_set_def list_update_append nat_add_distrib)
  have "array_get (?pre @ [Some m, Some l]) (int d) = op_Size a (int d)" if "d < Suc k" for d
  proof (cases "d < k")
    case True
    then show ?thesis using batch by (auto simp: array_get_def nth_append)
  next
    case False
    then have d: "d = k" using that by simp
    show ?thesis unfolding d using m by (simp add: array_get_def nth_append)
  qed
  moreover have "array_get (?pre @ [Some m, Some l]) (1 + int k) = op_Size b (1 + int k)"
    using l by (simp add: array_get_def nth_append nat_add_distrib)
  ultimately show ?thesis
    using res by (simp add: MatMulOp_Size_def k)
qed

text \<open>
  C1. Operands with the extents \<open>A = [4, 3, 2]\<close> and \<open>B = [3, 5, 2]\<close>, multiplied along the
  axis pair \<open>{0, 1}\<close> (dimension 2 is the batch dimension). Permuting the pair to the
  trailing position, applying the rule and permuting back gives \<open>[4, 5, 2]\<close>; the
  constructor reports \<open>[5, 4, 4]\<close> (and prints it). It tests \<^verbatim>\<open>perm_[r]\<close> against the two
  trailing positions where the restored dimension \<open>r\<close> would have to be looked up in the
  permutation, and reads \<^verbatim>\<open>a_.Size(r)\<close> of the permuted operand in the remaining case.
  Without a permutation \<open>A = [4, 3]\<close>, \<open>B = [3, 5]\<close> reports \<open>[4, 5]\<close>.
\<close>

theorem matmul_axis_extents_diverge_from_permute_rule:
  "map_sum id (matmul_out_dims \<circ> fst) (matmul_axis A_4_3_2 B_3_5_2 [0, 1] 1 0)
     = Inr [Some 5, Some 4, Some 4]
   \<and> map_sum id snd (matmul_axis A_4_3_2 B_3_5_2 [0, 1] 1 0) = Inr [(5, 4, 4)]
   \<and> spec_matmul_axis_extents [4, 3, 2] [3, 5, 2] [0, 1] = [4, 5, 2]
   \<and> map_sum id (matmul_out_dims \<circ> fst) (matmul A_4_3 B_3_5 1 0) = Inr [Some 4, Some 5]
   \<and> spec_matmul_extents [4, 3] [3, 5] = [4, 5]"
  by (simp add: matmul_axis_def matmul_def MatMulOp_def permute_def getPermuteDims_def
        unpermute_def spec_matmul_axis_extents_def spec_matmul_extents_def
        A_4_3_2_def B_3_5_2_def A_4_3_def B_3_5_def transform_eval Let_def)

text \<open>
  C10. With a permutation the constructor ends with the \<^verbatim>\<open>printf\<close> of \<^verbatim>\<open>out_dims_[0]\<close>,
  \<^verbatim>\<open>out_dims_[1]\<close> and \<^verbatim>\<open>out_dims_[2]\<close>. For a permutation of the operand's dimensions and
  operands whose extents can be read: from rank 3 on every construction succeeds and
  prints exactly these three extents; below rank 3 the read of the extent array is out
  of bounds.
\<close>

theorem MatMulOp_perm_debug_print:
  assumes "length perm = op_Rank a"
    and "\<forall>r<op_Rank a. 0 \<le> perm ! r \<and> perm ! r < int (op_Rank a)"
    and "\<forall>d<op_Rank a. \<exists>v. op_Size a (int d) = Inr v"
    and "\<forall>d<op_Rank a. \<exists>v. op_Size b (int d) = Inr v"
  shows "(3 \<le> op_Rank a \<longrightarrow>
           (\<exists>n d0 d1 d2. MatMulOp a b alpha beta (Some perm) = Inr (n, [(d0, d1, d2)])
              \<and> MatMulOp_Size n 0 = Inr d0 \<and> MatMulOp_Size n 1 = Inr d1
              \<and> MatMulOp_Size n 2 = Inr d2))
       \<and> (op_Rank a < 3 \<longrightarrow> MatMulOp a b alpha beta (Some perm) = Inl OutOfBounds)"
proof -
  from MatMulOp_perm_loop_upt [OF assms] obtain vs where
    vs: "MatMulOp_perm_loop a b perm [0..<op_Rank a] (array_uninit (op_Rank a)) = Inr (map Some vs)"
        "length vs = op_Rank a"
    by blast
  have ge: "\<exists>n d0 d1 d2. MatMulOp a b alpha beta (Some perm) = Inr (n, [(d0, d1, d2)])
              \<and> MatMulOp_Size n 0 = Inr d0 \<and> MatMulOp_Size n 1 = Inr d1
              \<and> MatMulOp_Size n 2 = Inr d2" if "3 \<le> op_Rank a"
  proof -
    have "0 < length vs" "1 < length vs" "2 < length vs"
      using that vs(2) by simp_all
    then show ?thesis
      using vs(1) assms(1) by (simp add: MatMulOp_def MatMulOp_Size_def array_get_def Let_def)
  qed
  have lt: "MatMulOp a b alpha beta (Some perm) = Inl OutOfBounds" if "op_Rank a < 3"
  proof -
    have "length vs = 0 \<or> length vs = 1 \<or> length vs = 2"
      using that vs(2) by auto
    then show ?thesis
      using vs assms(1) by (auto simp: MatMulOp_def array_get_def Let_def)
  qed
  from ge lt show ?thesis by blast
qed

theorem MatMulOp_perm_debug_print_witness:
  "map_sum id snd (MatMulOp A_4_3_2 B_3_5_2 1 0 (Some [2, 0, 1])) = Inr [(2, 3, 3)]
   \<and> MatMulOp A_4_3 B_3_5 1 0 (Some [1, 0]) = Inl OutOfBounds"
proof -
  have r3: "op_Rank A_4_3_2 = 3" and r2: "op_Rank A_4_3 = 2"
    by (simp_all add: A_4_3_2_def A_4_3_def transform_eval)
  have h3: "length [2, 0, 1 :: int] = op_Rank A_4_3_2"
    "\<forall>r<op_Rank A_4_3_2. 0 \<le> [2, 0, 1 :: int] ! r \<and> [2, 0, 1] ! r < int (op_Rank A_4_3_2)"
    "\<forall>d<op_Rank A_4_3_2. \<exists>v. op_Size A_4_3_2 (int d) = Inr v"
    "\<forall>d<op_Rank A_4_3_2. \<exists>v. op_Size B_3_5_2 (int d) = Inr v"
    unfolding r3
    by (auto simp: A_4_3_2_def B_3_5_2_def transform_eval less_Suc_eq numeral_3_eq_3)
  have h2: "length [1, 0 :: int] = op_Rank A_4_3"
    "\<forall>r<op_Rank A_4_3. 0 \<le> [1, 0 :: int] ! r \<and> [1, 0] ! r < int (op_Rank A_4_3)"
    "\<forall>d<op_Rank A_4_3. \<exists>v. op_Size A_4_3 (int d) = Inr v"
    "\<forall>d<op_Rank A_4_3. \<exists>v. op_Size B_3_5 (int d) = Inr v"
    unfolding r2
    by (auto simp: A_4_3_def B_3_5_def transform_eval less_Suc_eq numeral_2_eq_2)
  show ?thesis
    using MatMulOp_perm_debug_print [OF h3, of 1 0] MatMulOp_perm_debug_print [OF h2, of 1 0]
    by (simp add: MatMulOp_def A_4_3_2_def B_3_5_2_def A_4_3_def B_3_5_def transform_eval
          Let_def)
qed

section \<open>Covariance, cumulative sum and trace\<close>

lemma CovOp_rank_gt_2:
  assumes "\<forall>d<op_Rank a. \<exists>v. op_Size a (int d) = Inr v" and "2 < op_Rank a"
  shows "CovOp a = Inl OutOfBounds"
proof -
  have split: "[0..<op_Rank a] = 0 # Suc 0 # Suc (Suc 0) # [3..<op_Rank a]"
    using assms(2) by (simp add: upt_conv_Cons numeral_3_eq_3)
  obtain v0 v1 v2 where v: "op_Size a 0 = Inr v0" "op_Size a 1 = Inr v1" "op_Size a 2 = Inr v2"
    using assms(1) [rule_format, of 0] assms(1) [rule_format, of 1] assms(1) [rule_format, of 2] assms(2)
    by auto
  show ?thesis
    unfolding CovOp_def split
    using v by (simp add: array_set_def array_uninit_def)
qed

lemma CovOp_rank_le_2:
  assumes "\<forall>d<op_Rank a. \<exists>v. op_Size a (int d) = Inr v" and "op_Rank a \<le> 2"
  shows "\<exists>n. CovOp a = Inr n \<and> cov_a n = a \<and> length (cov_out_dims n) = 2
           \<and> (\<forall>d<op_Rank a. CovOp_Size n (int d) = op_Size a (int d))"
proof -
  have "CovOp a = Inr \<lparr> cov_a = a,
      cov_out_dims = map (\<lambda>k. Some (projr (op_Size a (int k)))) [0..<op_Rank a]
                       @ replicate (2 - op_Rank a) None,
      cov_tmp_out = None \<rparr>"
    unfolding CovOp_def using Size_loop_upt [OF assms] by simp
  moreover have "array_get (map (\<lambda>k. Some (projr (op_Size a (int k)))) [0..<op_Rank a]
                       @ replicate (2 - op_Rank a) None) (int d) = op_Size a (int d)"
    if "d < op_Rank a" for d
    using that assms by (auto simp: array_get_def nth_append)
  ultimately show ?thesis
    using assms(2) by (simp add: CovOp_Size_def)
qed


lemma TraceOp_scalar: "TraceOp_Rank (trace a) = 0"
  by (simp add: TraceOp_Rank_def)

lemma extents_frozen:
  "CovOp_Size (n\<lparr>cov_a := (cov_a n)\<lparr>op_call := g\<rparr>\<rparr>) d = CovOp_Size n d"
  "CumSumOp_Size (u\<lparr>cumsum_a := (cumsum_a u)\<lparr>op_call := g\<rparr>\<rparr>) d = CumSumOp_Size u d"
  "TraceOp_Size (t\<lparr>trace_a := (trace_a t)\<lparr>op_call := g\<rparr>\<rparr>) d = TraceOp_Size t d"
  "map_sum id cov_out_dims (CovOp (a\<lparr>op_call := g\<rparr>)) = map_sum id cov_out_dims (CovOp a)"
  "map_sum id cumsum_out_dims (CumSumOp (a\<lparr>op_call := g\<rparr>))
     = map_sum id cumsum_out_dims (CumSumOp a)"
  by (simp_all add: CovOp_Size_def CumSumOp_Size_def TraceOp_Size_def CovOp_def CumSumOp_def
        bindE_def split: sum.splits)


lemma Size_loop_raw_op_call [simp]:
  "Size_loop_raw (a\<lparr>op_call := g\<rparr>) rs out = Size_loop_raw a rs out"
  by (induction rs arbitrary: out) (auto simp: bindE_def split: sum.splits)




text \<open>
  C9. The covariance node keeps its extents in an array of length 2, written at every
  index below the operand's rank and read by \<^verbatim>\<open>Size\<close>. For an operand whose extents can be
  read, the construction indexes the array out of bounds exactly when the rank exceeds
  2; up to rank 2 the node is made, its extents are the operand's, and \<^verbatim>\<open>Size(d)\<close> is in
  bounds exactly for \<open>d\<close> in \<open>{0, 1}\<close>.
\<close>

theorem CovOp_extent_array_bounds:
  assumes "\<forall>d<op_Rank a. \<exists>v. op_Size a (int d) = Inr v"
  shows "((CovOp a = Inl OutOfBounds) = (2 < op_Rank a))
       \<and> (op_Rank a \<le> 2 \<longrightarrow>
            (\<exists>n. CovOp a = Inr n \<and> length (cov_out_dims n) = 2
               \<and> (\<forall>d<op_Rank a. CovOp_Size n (int d) = op_Size a (int d))
               \<and> (\<forall>d. (CovOp_Size n d = Inl OutOfBounds) = (d < 0 \<or> 2 \<le> d))))"
proof (cases "2 < op_Rank a")
  case True
  then show ?thesis using CovOp_rank_gt_2 [OF assms] by simp
next
  case False
  then have le: "op_Rank a \<le> 2" by simp
  from CovOp_rank_le_2 [OF assms le] obtain n where
    n: "CovOp a = Inr n" "length (cov_out_dims n) = 2"
       "\<forall>d<op_Rank a. CovOp_Size n (int d) = op_Size a (int d)"
    by blast
  have "(CovOp_Size n d = Inl OutOfBounds) = (d < 0 \<or> 2 \<le> d)" for d
    using n(2) by (auto simp: CovOp_Size_def array_get_def split: option.splits)
  with n False show ?thesis by auto
qed

theorem CovOp_extent_array_bounds_witness:
  "CovOp A_4_3_2 = Inl OutOfBounds
   \<and> map_sum id cov_out_dims (CovOp A_4_3) = Inr [Some 4, Some 3]"
proof -
  have h3: "\<forall>d<op_Rank A_4_3_2. \<exists>v. op_Size A_4_3_2 (int d) = Inr v"
    by (auto simp: A_4_3_2_def transform_eval less_Suc_eq numeral_3_eq_3)
  have r3: "2 < op_Rank A_4_3_2"
    by (simp add: A_4_3_2_def transform_eval)
  show ?thesis
    using CovOp_extent_array_bounds [OF h3] r3
    by (simp add: CovOp_def A_4_3_def transform_eval numeral_2_eq_2)
qed

section \<open>Deferred preparation\<close>

text \<open>
  C5, as the claim states it, at a trace node under the host context: \<^verbatim>\<open>PreRun\<close> gives the
  node, which had no temporary, a rank-0 temporary in host memory.
\<close>

theorem trace_PreRun_allocates_on_host:
  "map_sum id (trace_tmp_out \<circ> fst) (TraceOp_PreRun (trace A_4_3) [] HostExecutor)
     = Inr (Some \<lparr> tmp_shape = [], tmp_space = MATX_HOST_MEMORY, tmp_stream = None \<rparr>)
   \<and> trace_tmp_out (trace A_4_3) = None"
  by (simp add: TraceOp_PreRun_def trace_def TraceOp_def TraceOp_Exec_def A_4_3_def transform_eval)

text \<open>
  C5, amended. When the operands' own preparation succeeds and the node's extents are
  \<open>sh\<close>: \<^verbatim>\<open>PreRun\<close> of a covariance, matrix-multiply or cumulative-sum node under a device
  context replaces the node's temporary by a buffer of the extents \<open>sh\<close> in asynchronous
  device memory on the context's stream; under a host context the cumulative-sum node is
  left as it was, and covariance and matrix multiply stop at the static assertion of
  their \<^verbatim>\<open>Exec\<close>. \<^verbatim>\<open>PreRun\<close> of a trace node makes its rank-0 temporary under either
  context: in device memory for a device context, in host memory otherwise.
\<close>

theorem PreRun_owned_temporary:
  "(operand_PreRun (cov_a c) shape ex = Inr () \<and> array_values (cov_out_dims c) = Inr sh \<longrightarrow>
      map_sum id fst (CovOp_PreRun c shape ex) =
        (case ex of
           DeviceExecutor st \<Rightarrow>
             Inr (c\<lparr>cov_tmp_out := Some \<lparr> tmp_shape = sh, tmp_space = MATX_ASYNC_DEVICE_MEMORY,
                                          tmp_stream = Some st \<rparr>\<rparr>)
         | HostExecutor \<Rightarrow> Inl (StaticAssert ''cov() only supports the CUDA executor currently'')))
   \<and> (operand_PreRun (matmul_a m) shape ex = Inr () \<and> operand_PreRun (matmul_b m) shape ex = Inr ()
        \<and> array_values (matmul_out_dims m) = Inr sh \<longrightarrow>
      map_sum id fst (MatMulOp_PreRun m shape ex) =
        (case ex of
           DeviceExecutor st \<Rightarrow>
             Inr (m\<lparr>matmul_tmp_out := Some \<lparr> tmp_shape = sh, tmp_space = MATX_ASYNC_DEVICE_MEMORY,
                                             tmp_stream = Some st \<rparr>\<rparr>)
         | HostExecutor \<Rightarrow>
             Inl (StaticAssert ''matmul() only supports the CUDA executor currently'')))
   \<and> (operand_PreRun (cumsum_a u) shape ex = Inr () \<and> array_values (cumsum_out_dims u) = Inr sh \<longrightarrow>
      map_sum id fst (CumSumOp_PreRun u shape ex) =
        (case ex of
           DeviceExecutor st \<Rightarrow>
             Inr (u\<lparr>cumsum_tmp_out := Some \<lparr> tmp_shape = sh, tmp_space = MATX_ASYNC_DEVICE_MEMORY,
                                             tmp_stream = Some st \<rparr>\<rparr>)
         | HostExecutor \<Rightarrow> Inr u))
   \<and> (operand_PreRun (trace_a t) shape ex = Inr () \<longrightarrow>
      map_sum id fst (TraceOp_PreRun t shape ex) =
        (case ex of
           DeviceExecutor st \<Rightarrow>
             Inr (t\<lparr>trace_tmp_out := Some \<lparr> tmp_shape = [], tmp_space = MATX_ASYNC_DEVICE_MEMORY,
                                            tmp_stream = Some st \<rparr>\<rparr>)
         | HostExecutor \<Rightarrow>
             Inr (t\<lparr>trace_tmp_out := Some \<lparr> tmp_shape = [], tmp_space = MATX_HOST_MEMORY,
                                            tmp_stream = None \<rparr>\<rparr>)))"
  by (cases ex)
     (auto simp: CovOp_PreRun_def CovOp_Exec_def MatMulOp_PreRun_def MatMulOp_Exec_def
        CumSumOp_PreRun_def CumSumOp_Exec_def TraceOp_PreRun_def TraceOp_Exec_def
        is_device_executor_v_def getStream_def make_tensor_def split: option.splits)

theorem PreRun_owned_temporary_witness:
  "map_sum id fst
     (CovOp_PreRun \<lparr> cov_a = A_4_3, cov_out_dims = [Some 4, Some 3], cov_tmp_out = None \<rparr> []
        (DeviceExecutor 7))
     = Inr \<lparr> cov_a = A_4_3, cov_out_dims = [Some 4, Some 3],
             cov_tmp_out = Some \<lparr> tmp_shape = [4, 3], tmp_space = MATX_ASYNC_DEVICE_MEMORY,
                                   tmp_stream = Some 7 \<rparr> \<rparr>
   \<and> map_sum id fst
       (CumSumOp_PreRun \<lparr> cumsum_a = A_4_3, cumsum_out_dims = [Some 4, Some 3],
                          cumsum_tmp_out = None \<rparr> [] HostExecutor)
       = Inr \<lparr> cumsum_a = A_4_3, cumsum_out_dims = [Some 4, Some 3], cumsum_tmp_out = None \<rparr>
   \<and> map_sum id fst
       (TraceOp_PreRun \<lparr> trace_a = A_4_3, trace_tmp_out = None \<rparr> [] HostExecutor)
       = Inr \<lparr> trace_a = A_4_3,
               trace_tmp_out = Some \<lparr> tmp_shape = [], tmp_space = MATX_HOST_MEMORY,
                                       tmp_stream = None \<rparr> \<rparr>"
proof -
  have pre: "operand_PreRun A_4_3 [] ex = Inr ()" for ex
    by (simp add: A_4_3_def transform_eval)
  have vals: "array_values [Some 4, Some (3 :: int)] = Inr [4, 3]"
    by simp
  show ?thesis
    using PreRun_owned_temporary
            [of "\<lparr> cov_a = A_4_3, cov_out_dims = [Some 4, Some 3], cov_tmp_out = None \<rparr>"
                "[]" "DeviceExecutor 7" "[4, 3]"
                "\<lparr> matmul_a = A_4_3, matmul_b = A_4_3, matmul_alpha = 1, matmul_beta = 0,
                   matmul_perm = None, matmul_out_dims = [Some 4, Some 3],
                   matmul_tmp_out = None \<rparr>"
                "\<lparr> cumsum_a = A_4_3, cumsum_out_dims = [Some 4, Some 3],
                   cumsum_tmp_out = None \<rparr>"
                "\<lparr> trace_a = A_4_3, trace_tmp_out = None \<rparr>"]
          PreRun_owned_temporary
            [of "\<lparr> cov_a = A_4_3, cov_out_dims = [Some 4, Some 3], cov_tmp_out = None \<rparr>"
                "[]" HostExecutor "[4, 3]"
                "\<lparr> matmul_a = A_4_3, matmul_b = A_4_3, matmul_alpha = 1, matmul_beta = 0,
                   matmul_perm = None, matmul_out_dims = [Some 4, Some 3],
                   matmul_tmp_out = None \<rparr>"
                "\<lparr> cumsum_a = A_4_3, cumsum_out_dims = [Some 4, Some 3],
                   cumsum_tmp_out = None \<rparr>"
                "\<lparr> trace_a = A_4_3, trace_tmp_out = None \<rparr>"]
          pre vals
    by simp
qed

section \<open>Multi-output nodes\<close>

text \<open>
  C6. For a QR node and a cuSolver QR node: element access is a deleted function, so every
  call of it fails; \<^verbatim>\<open>PreRun\<close> fails with the \<^verbatim>\<open>matxNotSupported\<close> diagnostic for every shape
  and context; and \<^verbatim>\<open>Exec\<close> yields a kernel call exactly when the context is a device
  context and the destination tuple has 3 components.
\<close>

theorem multi_output_nodes_fail_outside_assignment:
  "QROp_call q indices = Inl DeletedFunction
   \<and> CuSolverQROp_call c indices = Inl DeletedFunction
   \<and> QROp_PreRun q shape ex
       = Inl (matxNotSupported ''qr() must only be called with a single assignment'')
   \<and> CuSolverQROp_PreRun c shape ex
       = Inl (matxNotSupported
           ''cusolver_qr() must only be called with a single assignment since it has multiple return types'')
   \<and> (\<exists>l. QROp_Exec q out ex = Inr l) = (is_device_executor_v ex \<and> length out = 3)
   \<and> (\<exists>l. CuSolverQROp_Exec c out ex = Inr l) = (is_device_executor_v ex \<and> length out = 3)"
  by (simp add: QROp_call_def CuSolverQROp_call_def QROp_PreRun_def CuSolverQROp_PreRun_def
        QROp_Exec_def CuSolverQROp_Exec_def MATX_ASSERT_STR_def)

end
